theory Spec2Isabelle
  imports Complex_Main
begin

section \<open>Python values\<close>

text \<open>
  The two scripts \<^verbatim>\<open>resize_png.py\<close> and \<^verbatim>\<open>png_to_ico.py\<close> are embedded as HOL
  functions. Python integers are \<^typ>\<open>int\<close>, strings are \<^typ>\<open>string\<close> (ASCII only),
  \<^verbatim>\<open>None\<close>-able parameters are options, and every exception the scripts can meet is a
  value of \<open>py_error\<close>.
\<close>

datatype py_error =
    FileNotFoundError
  | UnidentifiedImageError
  | MissingSizeError
  | UnknownModeError string
  | IntParseError string
  | ZeroDivisionError
  | OverflowError
  | IndexError
  | ImageSizeError
  | ColorError
  | SaveError

text \<open>
  \<open>MissingSizeError\<close> is the \<^verbatim>\<open>ValueError\<close> of line 60 of \<^verbatim>\<open>resize_png.py\<close>,
  \<open>UnknownModeError\<close> the one of line 94, \<open>IntParseError\<close> the \<^verbatim>\<open>ValueError\<close> of the
  builtin \<^verbatim>\<open>int(s)\<close>; \<open>ImageSizeError\<close>, \<open>ColorError\<close> and \<open>SaveError\<close> stand for the
  exceptions the imaging library raises on a bad size, a bad colour tuple and a failed
  write.
\<close>

subsection \<open>Truthiness\<close>

text \<open>\<^verbatim>\<open>if width\<close>: \<^verbatim>\<open>None\<close> and \<^verbatim>\<open>0\<close> are both false.\<close>

fun truthy :: "int option \<Rightarrow> bool" where
  "truthy None = False"
| "truthy (Some n) = (n \<noteq> 0)"

text \<open>\<^verbatim>\<open>width if width else original_width\<close>.\<close>

fun value_or :: "int option \<Rightarrow> int \<Rightarrow> int" where
  "value_or None d = d"
| "value_or (Some n) d = (if n \<noteq> 0 then n else d)"

text \<open>\<^verbatim>\<open>if output_suffix\<close>: \<^verbatim>\<open>None\<close> and the empty string are both false.\<close>

fun truthy_str :: "string option \<Rightarrow> bool" where
  "truthy_str None = False"
| "truthy_str (Some s) = (s \<noteq> [])"

subsection \<open>Formatting integers\<close>

definition digit_char :: "nat \<Rightarrow> char" where
  "digit_char d = ''0123456789'' ! d"

fun str_nat :: "nat \<Rightarrow> string" where
  "str_nat n = (if n < 10 then [digit_char n] else str_nat (n div 10) @ [digit_char (n mod 10)])"

declare str_nat.simps [simp del]

definition str_int :: "int \<Rightarrow> string" where
  "str_int i = (if i < 0 then CHR ''-'' # str_nat (nat (- i)) else str_nat (nat i))"

text \<open>An f-string field \<^verbatim>\<open>{width}\<close>: \<^verbatim>\<open>None\<close> prints as the word \<^verbatim>\<open>None\<close>.\<close>

fun format_opt :: "int option \<Rightarrow> string" where
  "format_opt None = ''None''"
| "format_opt (Some n) = str_int n"

fun format_str_opt :: "string option \<Rightarrow> string" where
  "format_str_opt None = ''None''"
| "format_str_opt (Some s) = s"

subsection \<open>Parsing integers: the builtin int(s)\<close>

text \<open>
  Base-ten \<^verbatim>\<open>int(s)\<close> on an ASCII string: surrounding whitespace is dropped, one sign is
  allowed, then digits, where single underscores may stand between two digits. The
  interpreter's configurable limit on the number of digits is not modelled.
\<close>

definition is_space :: "char \<Rightarrow> bool" where
  "is_space c = (c \<in> set [CHR '' '', CHR 0x09, CHR 0x0A, CHR 0x0B, CHR 0x0C, CHR 0x0D])"

definition strip :: "string \<Rightarrow> string" where
  "strip s = rev (dropWhile is_space (rev (dropWhile is_space s)))"

definition digit_val :: "char \<Rightarrow> nat option" where
  "digit_val c =
     (let k = (of_char c :: nat) in if 48 \<le> k \<and> k \<le> 57 then Some (k - 48) else None)"

fun parse_digits :: "nat \<Rightarrow> string \<Rightarrow> nat option" where
  "parse_digits acc [] = Some acc"
| "parse_digits acc [c] =
     (case digit_val c of None \<Rightarrow> None | Some v \<Rightarrow> Some (10 * acc + v))"
| "parse_digits acc (c # d # ds) =
     (if c = CHR ''_''
      then (case digit_val d of None \<Rightarrow> None | Some v \<Rightarrow> parse_digits (10 * acc + v) ds)
      else (case digit_val c of None \<Rightarrow> None | Some v \<Rightarrow> parse_digits (10 * acc + v) (d # ds)))"

definition parse_unsigned :: "string \<Rightarrow> nat option" where
  "parse_unsigned s = (case s of [] \<Rightarrow> None
     | c # cs \<Rightarrow> (case digit_val c of None \<Rightarrow> None | Some v \<Rightarrow> parse_digits v cs))"

definition py_int_of_str :: "string \<Rightarrow> py_error + int" where
  "py_int_of_str s =
     (let t = strip s;
          r = (case t of [] \<Rightarrow> None
               | c # cs \<Rightarrow>
                   if c = CHR ''-'' then map_option (\<lambda>n. - int n) (parse_unsigned cs)
                   else if c = CHR ''+'' then map_option int (parse_unsigned cs)
                   else map_option int (parse_unsigned t))
      in case r of None \<Rightarrow> Inl (IntParseError s) | Some n \<Rightarrow> Inr n)"


text \<open>\<^verbatim>\<open>s.split(',')\<close>: every separator cuts, so the result is never empty.\<close>

fun split_on :: "char \<Rightarrow> string \<Rightarrow> string list" where
  "split_on sep [] = [[]]"
| "split_on sep (c # cs) =
     (if c = sep then [] # split_on sep cs
      else (case split_on sep cs of [] \<Rightarrow> [[c]] | p # ps \<Rightarrow> (c # p) # ps))"

subsection \<open>Paths: os.path on a POSIX system\<close>

definition not_sep :: "char \<Rightarrow> bool" where
  "not_sep c = (c \<noteq> CHR ''/'')"

definition rstrip_sep :: "string \<Rightarrow> string" where
  "rstrip_sep s = rev (dropWhile (\<lambda>c. c = CHR ''/'') (rev s))"

text \<open>
  \<^verbatim>\<open>os.path.split\<close>: the tail is what follows the last slash; trailing slashes are
  stripped from the head unless the head consists of slashes only.
\<close>

definition os_path_split :: "string \<Rightarrow> string \<times> string" where
  "os_path_split p =
     (let head = rev (dropWhile not_sep (rev p));
          tail = rev (takeWhile not_sep (rev p))
      in (if head \<noteq> [] \<and> list_ex (\<lambda>c. c \<noteq> CHR ''/'') head then rstrip_sep head else head, tail))"

text \<open>
  \<^verbatim>\<open>os.path.splitext\<close>: the extension starts at the last dot of the last path component,
  provided some character other than a dot stands before it in that component.
\<close>

definition os_path_splitext :: "string \<Rightarrow> string \<times> string" where
  "os_path_splitext p =
     (let comp = rev (takeWhile not_sep (rev p));
          ext = rev (takeWhile (\<lambda>c. c \<noteq> CHR ''.'') (rev comp));
          stem = take (length comp - length ext - 1) comp
      in if CHR ''.'' \<in> set comp \<and> list_ex (\<lambda>c. c \<noteq> CHR ''.'') stem
         then (take (length p - length ext - 1) p, CHR ''.'' # ext)
         else (p, []))"

text \<open>\<^verbatim>\<open>os.path.join\<close> of two components.\<close>

definition os_path_join :: "string \<Rightarrow> string \<Rightarrow> string" where
  "os_path_join a b =
     (if b \<noteq> [] \<and> hd b = CHR ''/'' then b
      else if a = [] \<or> last a = CHR ''/'' then a @ b
      else a @ ''/'' @ b)"

subsection \<open>Floating point: true division and int()\<close>

text \<open>
  \<^verbatim>\<open>width/original_width\<close> is Python's true division of two integers: the exact quotient
  rounded to the nearest IEEE-754 double, ties to even. A finite double is represented by
  the rational number it denotes. \<open>float_round\<close> rounds a rational to 53 significant bits,
  with gradual underflow below \<open>2 ^ -1022\<close>, and returns \<open>None\<close> when the rounded value does
  not fit a double, that is, when its magnitude reaches \<open>2 ^ 1024\<close>.
\<close>

text \<open>The number of binary digits of a positive integer.\<close>

function bit_length :: "int \<Rightarrow> nat" where
  "bit_length n = (if n \<le> 0 then 0 else Suc (bit_length (n div 2)))"
  by pat_completeness auto
termination
  by (relation "measure nat") auto

declare bit_length.simps [simp del]

definition pow2 :: "int \<Rightarrow> rat" where
  "pow2 e = (if 0 \<le> e then 2 ^ nat e else 1 / 2 ^ nat (- e))"

text \<open>For positive \<open>x\<close>, \<open>ilog2 x\<close> is the integer \<open>e\<close> with \<open>2 ^ e \<le> x < 2 ^ (e + 1)\<close>.\<close>

definition ilog2 :: "rat \<Rightarrow> int" where
  "ilog2 x = (case quotient_of x of (p, q) \<Rightarrow>
     (let e0 = int (bit_length p) - int (bit_length q)
      in if pow2 e0 \<le> x then e0 else e0 - 1))"

definition round_half_even :: "rat \<Rightarrow> int" where
  "round_half_even r =
     (let f = \<lfloor>r\<rfloor>; d = r - of_int f
      in if d < 1 / 2 then f else if 1 / 2 < d then f + 1 else if even f then f else f + 1)"

definition float_round :: "rat \<Rightarrow> rat option" where
  "float_round x =
     (if x = 0 then Some 0
      else (let e = max (ilog2 \<bar>x\<bar>) (- 1022);
                q = pow2 (e - 52);
                y = of_int (round_half_even (x / q)) * q
            in if y \<noteq> 0 \<and> 1024 \<le> ilog2 \<bar>y\<bar> then None else Some y))"

text \<open>\<^verbatim>\<open>a / b\<close> on integers.\<close>

definition py_truediv :: "int \<Rightarrow> int \<Rightarrow> py_error + rat" where
  "py_truediv a b =
     (if b = 0 then Inl ZeroDivisionError
      else (case float_round (of_int a / of_int b) of
              None \<Rightarrow> Inl OverflowError
            | Some r \<Rightarrow> Inr r))"

text \<open>
  \<^verbatim>\<open>int(n * ratio)\<close> with \<open>n\<close> an integer and \<open>ratio\<close> a float: \<open>n\<close> is converted to a
  float (\<^verbatim>\<open>OverflowError\<close> when too large), the product is rounded, and \<^verbatim>\<open>int\<close> truncates
  toward zero (\<^verbatim>\<open>OverflowError\<close> on an infinite product).
\<close>

definition py_trunc :: "rat \<Rightarrow> int" where
  "py_trunc x = (if 0 \<le> x then \<lfloor>x\<rfloor> else \<lceil>x\<rceil>)"

definition int_of_product :: "int \<Rightarrow> rat \<Rightarrow> py_error + int" where
  "int_of_product n ratio =
     (case float_round (of_int n) of
        None \<Rightarrow> Inl OverflowError
      | Some f \<Rightarrow> (case float_round (f * ratio) of
                     None \<Rightarrow> Inl OverflowError
                   | Some y \<Rightarrow> Inr (py_trunc y)))"

text \<open>
  Lines 63--65 and 82--84 of \<^verbatim>\<open>resize_png.py\<close>:
  \<^verbatim>\<open>ratio = min(w/original_width, h/original_height)\<close>, then
  \<^verbatim>\<open>(int(original_width * ratio), int(original_height * ratio))\<close>.
\<close>

definition fit_ratio :: "int \<Rightarrow> int \<Rightarrow> int \<Rightarrow> int \<Rightarrow> py_error + rat" where
  "fit_ratio w h original_width original_height =
     (case py_truediv w original_width of
        Inl e \<Rightarrow> Inl e
      | Inr a \<Rightarrow> (case py_truediv h original_height of
                    Inl e \<Rightarrow> Inl e
                  | Inr b \<Rightarrow> Inr (min a b)))"

definition scaled_size :: "int \<Rightarrow> int \<Rightarrow> int \<Rightarrow> int \<Rightarrow> py_error + int \<times> int" where
  "scaled_size w h original_width original_height =
     (case fit_ratio w h original_width original_height of
        Inl e \<Rightarrow> Inl e
      | Inr ratio \<Rightarrow>
          (case int_of_product original_width ratio of
             Inl e \<Rightarrow> Inl e
           | Inr a \<Rightarrow> (case int_of_product original_height ratio of
                         Inl e \<Rightarrow> Inl e
                       | Inr b \<Rightarrow> Inr (a, b))))"

section \<open>Images and the file system\<close>

text \<open>
  The imaging library is modelled at the level the scripts observe: an image has a width,
  a height, a pixel mode, and pixels that record how they were made. Resampling itself
  and the limits of memory are outside the model.
\<close>

datatype pixels =
    Decoded nat
  | Converted pixels
  | Resized pixels
  | Fitted pixels
  | Blank "int list"
  | Pasted pixels pixels "int \<times> int"

record image =
  img_width :: int
  img_height :: int
  img_mode :: string
  img_pixels :: pixels

datatype file_content = ImageFile image | IcoFile image "image list" | OtherFile

text \<open>
  The world of one run: the files that exist, as an association list from path to
  content, whether the one write of the run succeeds at a given path, and, for a write
  that fails, whether it fails after the output was opened for writing (the encoder
  fails) or before (the open itself is refused).
\<close>

record world =
  files :: "(string \<times> file_content) list"
  save_ok :: "string \<Rightarrow> bool"
  save_truncates :: "string \<Rightarrow> bool"

definition path_exists :: "world \<Rightarrow> string \<Rightarrow> bool" where
  "path_exists w p = (map_of (files w) p \<noteq> None)"

text \<open>\<^verbatim>\<open>Image.open\<close>; an icon file decodes to its primary image.\<close>

definition image_open :: "world \<Rightarrow> string \<Rightarrow> py_error + image" where
  "image_open w p =
     (case map_of (files w) p of
        None \<Rightarrow> Inl FileNotFoundError
      | Some (ImageFile im) \<Rightarrow> Inr im
      | Some (IcoFile im ims) \<Rightarrow> Inr im
      | Some OtherFile \<Rightarrow> Inl UnidentifiedImageError)"

definition image_convert_rgba :: "image \<Rightarrow> image" where
  "image_convert_rgba im = im\<lparr>img_mode := ''RGBA'', img_pixels := Converted (img_pixels im)\<rparr>"

text \<open>\<^verbatim>\<open>img.resize\<close>: the library rejects a width or height below one.\<close>

definition image_resize :: "image \<Rightarrow> int \<times> int \<Rightarrow> py_error + image" where
  "image_resize im sz =
     (if fst sz < 1 \<or> snd sz < 1 then Inl ImageSizeError
      else Inr (im\<lparr>img_width := fst sz, img_height := snd sz, img_pixels := Resized (img_pixels im)\<rparr>))"

text \<open>\<^verbatim>\<open>ImageOps.fit\<close> with centering \<open>(0.5, 0.5)\<close>: a centred crop resampled to the box.\<close>

definition imageops_fit :: "image \<Rightarrow> int \<times> int \<Rightarrow> py_error + image" where
  "imageops_fit im sz =
     (if fst sz < 1 \<or> snd sz < 1 \<or> img_width im < 1 \<or> img_height im < 1 then Inl ImageSizeError
      else Inr (im\<lparr>img_width := fst sz, img_height := snd sz, img_pixels := Fitted (img_pixels im)\<rparr>))"

text \<open>
  \<^verbatim>\<open>Image.new('RGBA', size, color)\<close>: a negative size is rejected, and the colour tuple
  must have one, three or four components.
\<close>

definition image_new_rgba :: "int \<times> int \<Rightarrow> int list \<Rightarrow> py_error + image" where
  "image_new_rgba sz color =
     (if fst sz < 0 \<or> snd sz < 0 then Inl ImageSizeError
      else if length color \<notin> {1, 3, 4} then Inl ColorError
      else Inr \<lparr>img_width = fst sz, img_height = snd sz, img_mode = ''RGBA'',
                img_pixels = Blank color\<rparr>)"

definition image_paste :: "image \<Rightarrow> image \<Rightarrow> int \<times> int \<Rightarrow> image" where
  "image_paste canvas im offset =
     canvas\<lparr>img_pixels := Pasted (img_pixels canvas) (img_pixels im) offset\<rparr>"

text \<open>
  \<^verbatim>\<open>Image.save\<close> opens the output for writing and then encodes. When the encoder fails, a
  file the save created is removed again, but a file that was there before stays
  truncated: it no longer decodes. When the open is refused nothing changes.
\<close>

definition failed_write :: "world \<Rightarrow> string \<Rightarrow> world" where
  "failed_write w p =
     (if save_truncates w p \<and> path_exists w p then w\<lparr>files := (p, OtherFile) # files w\<rparr>
      else w)"

text \<open>
  Saving writes the file at the path, replacing what was there; \<open>Inl\<close> is the exception
  together with the world the failed save leaves behind.
\<close>

definition write_file :: "world \<Rightarrow> string \<Rightarrow> file_content \<Rightarrow> py_error \<times> world + world" where
  "write_file w p f =
     (if save_ok w p then Inr (w\<lparr>files := (p, f) # files w\<rparr>)
      else Inl (SaveError, failed_write w p))"

section \<open>What a run prints\<close>

text \<open>
  One constructor for each \<^verbatim>\<open>print\<close> of the two scripts, carrying the values the line is
  formatted from.
\<close>

datatype line =
    Original_kept string
  | New_generated string
  | Original_size int int
  | New_size int int
  | Failed py_error
  | Background_format_error
  | Ico_success string string
  | Ico_sizes string
  | Ico_error py_error

section \<open>resize_png.py\<close>

subsection \<open>The output path (lines 30--56)\<close>

text \<open>The size tag of lines 34--48.\<close>

definition make_size_tag :: "int option \<Rightarrow> int option \<Rightarrow> string \<Rightarrow> string option \<Rightarrow> string" where
  "make_size_tag width height mode output_suffix =
     (if truthy width \<and> truthy height then ''_'' @ format_opt width @ ''x'' @ format_opt height
      else if truthy width then ''_w'' @ format_opt width
      else if truthy height then ''_h'' @ format_opt height
      else [])
     @ (if mode \<noteq> ''scale'' then ''_'' @ mode else [])
     @ (if truthy_str output_suffix then ''_'' @ format_str_opt output_suffix else [])"

text \<open>
  The loop of lines 53--56, with the candidate of line 55 as \<open>numbered_path\<close>. It runs as
  long as the candidate exists, so it is a partial function: \<open>None\<close> means that it never
  ends.
\<close>

definition numbered_path :: "string \<Rightarrow> string \<Rightarrow> string \<Rightarrow> string \<Rightarrow> int \<Rightarrow> string" where
  "numbered_path dirname name size_tag ext counter =
     os_path_join dirname (name @ size_tag @ ''_'' @ str_int counter @ ext)"

partial_function (option) avoid_overwrite ::
  "world \<Rightarrow> string \<Rightarrow> string \<Rightarrow> string \<Rightarrow> string \<Rightarrow> string \<Rightarrow> int \<Rightarrow> string option" where
  "avoid_overwrite w dirname name size_tag ext output_path counter =
     (if path_exists w output_path
      then avoid_overwrite w dirname name size_tag ext
             (numbered_path dirname name size_tag ext counter) (counter + 1)
      else Some output_path)"

declare avoid_overwrite.simps [code]

definition derive_output_path ::
  "world \<Rightarrow> string \<Rightarrow> string option \<Rightarrow> int option \<Rightarrow> int option \<Rightarrow> string \<Rightarrow> string option" where
  "derive_output_path w input_path output_suffix width height mode =
     (case os_path_split input_path of (dirname, basename) \<Rightarrow>
        (case os_path_splitext basename of (name, ext) \<Rightarrow>
           (let size_tag = make_size_tag width height mode output_suffix
            in avoid_overwrite w dirname name size_tag ext
                 (os_path_join dirname (name @ size_tag @ ext)) 1)))"

subsection \<open>The target size (lines 62--68)\<close>

definition target_size ::
  "bool \<Rightarrow> int option \<Rightarrow> int option \<Rightarrow> string \<Rightarrow> int \<Rightarrow> int \<Rightarrow> py_error + int \<times> int" where
  "target_size keep_aspect width height mode original_width original_height =
     (if keep_aspect \<and> truthy width \<and> truthy height \<and> mode \<noteq> ''stretch''
      then (case (width, height) of
              (Some wd, Some ht) \<Rightarrow> scaled_size wd ht original_width original_height
            | _ \<Rightarrow> Inr (value_or width original_width, value_or height original_height))
      else Inr (value_or width original_width, value_or height original_height))"

subsection \<open>The four modes (lines 71--94)\<close>

definition pad_image :: "image \<Rightarrow> int \<Rightarrow> int \<Rightarrow> int list \<Rightarrow> py_error + image" where
  "pad_image img target_width target_height background =
     (let img1 = (if img_mode img \<noteq> ''RGBA'' then image_convert_rgba img else img)
      in case scaled_size target_width target_height (img_width img) (img_height img) of
           Inl e \<Rightarrow> Inl e
         | Inr (new_width, new_height) \<Rightarrow>
             (case image_resize img1 (new_width, new_height) of
                Inl e \<Rightarrow> Inl e
              | Inr scaled_img \<Rightarrow>
                  (case image_new_rgba (target_width, target_height) background of
                     Inl e \<Rightarrow> Inl e
                   | Inr new_img \<Rightarrow>
                       Inr (image_paste new_img scaled_img
                              ((target_width - new_width) div 2,
                               (target_height - new_height) div 2)))))"

definition apply_mode :: "image \<Rightarrow> string \<Rightarrow> int \<Rightarrow> int \<Rightarrow> int list \<Rightarrow> py_error + image" where
  "apply_mode img mode target_width target_height background =
     (if mode = ''scale'' then image_resize img (target_width, target_height)
      else if mode = ''crop'' then imageops_fit img (target_width, target_height)
      else if mode = ''pad'' then pad_image img target_width target_height background
      else if mode = ''stretch'' then image_resize img (target_width, target_height)
      else Inl (UnknownModeError mode))"

subsection \<open>The function\<close>

text \<open>
  The body of the \<^verbatim>\<open>try\<close> block: the world it leaves behind, and either the exception
  that leaves it (\<open>Inl\<close>) or the four lines printed (\<open>Inr\<close>). The outer option is the loop
  of lines 53--56.
\<close>

definition resize_try ::
  "world \<Rightarrow> string \<Rightarrow> string option \<Rightarrow> int option \<Rightarrow> int option \<Rightarrow> string \<Rightarrow> int list \<Rightarrow> bool
     \<Rightarrow> int \<Rightarrow> (world \<times> (py_error + line list)) option" where
  "resize_try w input_path output_suffix width height mode background keep_aspect quality =
     (case image_open w input_path of
        Inl e \<Rightarrow> Some (w, Inl e)
      | Inr img \<Rightarrow>
          (case derive_output_path w input_path output_suffix width height mode of
             None \<Rightarrow> None
           | Some output_path \<Rightarrow>
               Some (if width = None \<and> height = None then (w, Inl MissingSizeError)
                     else (case target_size keep_aspect width height mode
                                  (img_width img) (img_height img) of
                             Inl e \<Rightarrow> (w, Inl e)
                           | Inr (target_width, target_height) \<Rightarrow>
                               (case apply_mode img mode target_width target_height background of
                                  Inl e \<Rightarrow> (w, Inl e)
                                | Inr resized_img \<Rightarrow>
                                    (case write_file w output_path (ImageFile resized_img) of
                                       Inl (e, w') \<Rightarrow> (w', Inl e)
                                     | Inr w' \<Rightarrow>
                                         (w', Inr [Original_kept input_path,
                                                   New_generated output_path,
                                                   Original_size (img_width img) (img_height img),
                                                   New_size (img_width resized_img)
                                                            (img_height resized_img)])))))))"

text \<open>\<^verbatim>\<open>except Exception as e: print(...)\<close>: every exception becomes one printed line.\<close>

definition resize_png ::
  "world \<Rightarrow> string \<Rightarrow> string option \<Rightarrow> int option \<Rightarrow> int option \<Rightarrow> string \<Rightarrow> int list \<Rightarrow> bool
     \<Rightarrow> int \<Rightarrow> (world \<times> line list) option" where
  "resize_png w input_path output_suffix width height mode background keep_aspect quality =
     (case resize_try w input_path output_suffix width height mode background keep_aspect quality of
        None \<Rightarrow> None
      | Some (w', Inl e) \<Rightarrow> Some (w', [Failed e])
      | Some (w', Inr printed) \<Rightarrow> Some (w', printed))"

subsection \<open>The command line (lines 106--142)\<close>



section \<open>png_to_ico.py\<close>

definition default_sizes :: "(int \<times> int) list" where
  "default_sizes = [(16, 16), (32, 32), (48, 48), (64, 64), (128, 128), (256, 256), (512, 512)]"

text \<open>The loop of lines 22--24: the first failing resize raises.\<close>

fun resize_each :: "image \<Rightarrow> (int \<times> int) list \<Rightarrow> py_error + image list" where
  "resize_each img [] = Inr []"
| "resize_each img (sz # szs) =
     (case image_resize img sz of
        Inl e \<Rightarrow> Inl e
      | Inr resized_img \<Rightarrow>
          (case resize_each img szs of Inl e \<Rightarrow> Inl e | Inr rest \<Rightarrow> Inr (resized_img # rest)))"

text \<open>\<^verbatim>\<open>', '.join([f'{w}x{h}' for w, h in sizes])\<close>.\<close>

fun join_sizes :: "(int \<times> int) list \<Rightarrow> string" where
  "join_sizes [] = []"
| "join_sizes [(a, b)] = str_int a @ ''x'' @ str_int b"
| "join_sizes ((a, b) # sz # szs) = str_int a @ ''x'' @ str_int b @ '', '' @ join_sizes (sz # szs)"

text \<open>
  The \<^verbatim>\<open>try\<close> block of lines 14--36: the world it leaves behind, and either the exception that
  leaves it or the two lines printed.
\<close>

definition ico_try ::
  "world \<Rightarrow> string \<Rightarrow> string \<Rightarrow> (int \<times> int) list \<Rightarrow> world \<times> (py_error + line list)" where
  "ico_try w input_path output_path sizes =
     (case image_open w input_path of
        Inl e \<Rightarrow> (w, Inl e)
      | Inr img0 \<Rightarrow>
          (let img = (if img_mode img0 \<noteq> ''RGBA'' then image_convert_rgba img0 else img0)
           in case resize_each img sizes of
                Inl e \<Rightarrow> (w, Inl e)
              | Inr ico_images \<Rightarrow>
                  (case ico_images of
                     [] \<Rightarrow> (w, Inl IndexError)
                   | first # rest \<Rightarrow>
                       (case write_file w output_path (IcoFile first rest) of
                          Inl (e, w') \<Rightarrow> (w', Inl e)
                        | Inr w' \<Rightarrow>
                            (w', Inr [Ico_success input_path output_path,
                                      Ico_sizes (join_sizes sizes)])))))"

definition png_to_ico ::
  "world \<Rightarrow> string \<Rightarrow> string option \<Rightarrow> (int \<times> int) list option \<Rightarrow> world \<times> line list" where
  "png_to_ico w input_path output_path sizes =
     (let sizes1 = (case sizes of None \<Rightarrow> default_sizes | Some szs \<Rightarrow> szs);
          output_path1 = (case output_path of
                            None \<Rightarrow> fst (os_path_splitext input_path) @ ''.ico''
                          | Some p \<Rightarrow> p)
      in case ico_try w input_path output_path1 sizes1 of
           (w', Inl e) \<Rightarrow> (w', [Ico_error e])
         | (w', Inr printed) \<Rightarrow> (w', printed))"

text \<open>
  The command line (lines 41--49). The size list is parsed outside any \<^verbatim>\<open>try\<close>: \<open>Inl\<close> is
  an exception that leaves the script uncaught.
\<close>

fun square_sizes :: "string list \<Rightarrow> py_error + (int \<times> int) list" where
  "square_sizes [] = Inr []"
| "square_sizes (s # ss) =
     (case py_int_of_str s of
        Inl e \<Rightarrow> Inl e
      | Inr n \<Rightarrow> (case square_sizes ss of Inl e \<Rightarrow> Inl e | Inr rest \<Rightarrow> Inr ((n, n) # rest)))"

definition cli_sizes :: "string option \<Rightarrow> py_error + (int \<times> int) list" where
  "cli_sizes sizes_arg =
     square_sizes (split_on CHR '','' (case sizes_arg of None \<Rightarrow> ''16,32,48,64,128,256'' | Some s \<Rightarrow> s))"

definition ico_main ::
  "world \<Rightarrow> string \<Rightarrow> string option \<Rightarrow> string option \<Rightarrow> py_error + world \<times> line list" where
  "ico_main w input output sizes_arg =
     (case cli_sizes sizes_arg of
        Inl e \<Rightarrow> Inl e
      | Inr sizes \<Rightarrow> Inr (png_to_ico w input output (Some sizes)))"

section \<open>The wording of the specification\<close>

text \<open>
  Definitions that follow the specification's sentences rather than the code, to be
  compared with the functions above.
\<close>

text \<open>
  The tag of the output file name as the specification words it: a dimension counts as
  soon as it was supplied, and so does a suffix.
\<close>

definition spec_size_tag :: "int option \<Rightarrow> int option \<Rightarrow> string \<Rightarrow> string option \<Rightarrow> string" where
  "spec_size_tag width height mode output_suffix =
     (case (width, height) of
        (Some a, Some b) \<Rightarrow> ''_'' @ str_int a @ ''x'' @ str_int b
      | (Some a, None) \<Rightarrow> ''_w'' @ str_int a
      | (None, Some b) \<Rightarrow> ''_h'' @ str_int b
      | (None, None) \<Rightarrow> [])
     @ (if mode \<noteq> ''scale'' then ''_'' @ mode else [])
     @ (case output_suffix of None \<Rightarrow> [] | Some s \<Rightarrow> ''_'' @ s)"

text \<open>
  The target size as the specification words it: the aspect-preserving case applies as
  soon as both dimensions were given, with the ratio and the products in exact
  arithmetic, rounded down; otherwise a given dimension is taken as it is.
\<close>

definition spec_target_size ::
  "bool \<Rightarrow> int option \<Rightarrow> int option \<Rightarrow> string \<Rightarrow> int \<Rightarrow> int \<Rightarrow> int \<times> int" where
  "spec_target_size keep_aspect width height mode original_width original_height =
     (case (width, height) of
        (Some a, Some b) \<Rightarrow>
          if keep_aspect \<and> mode \<noteq> ''stretch''
          then (let r = min (rat_of_int a / rat_of_int original_width)
                            (rat_of_int b / rat_of_int original_height)
                in (\<lfloor>rat_of_int original_width * r\<rfloor>, \<lfloor>rat_of_int original_height * r\<rfloor>))
          else (a, b)
      | (Some a, None) \<Rightarrow> (a, original_height)
      | (None, Some b) \<Rightarrow> (original_width, b)
      | (None, None) \<Rightarrow> (original_width, original_height))"

text \<open>A rational number is representable when rounding to a double leaves it unchanged.\<close>

definition representable :: "rat \<Rightarrow> bool" where
  "representable x = (float_round x = Some x)"

section \<open>Sample inputs\<close>

text \<open>
  Concrete worlds on which the theorems below are instantiated: a directory holding a
  1000x400 image \<^verbatim>\<open>a.png\<close> next to an existing \<^verbatim>\<open>a_w300.png\<close>, one holding a 600x400
  image \<^verbatim>\<open>b.png\<close>, and one holding \<^verbatim>\<open>a.png\<close> and an older icon \<^verbatim>\<open>old.ico\<close> in which every
  save fails in the encoder.
\<close>

definition wide_image :: image where
  "wide_image = \<lparr>img_width = 1000, img_height = 400, img_mode = ''RGB'', img_pixels = Decoded 0\<rparr>"

definition wide_world :: world where
  "wide_world = \<lparr>files = [(''a.png'', ImageFile wide_image), (''a_w300.png'', OtherFile)],
                  save_ok = (\<lambda>p. True), save_truncates = (\<lambda>p. True)\<rparr>"

definition photo_image :: image where
  "photo_image = \<lparr>img_width = 600, img_height = 400, img_mode = ''RGB'', img_pixels = Decoded 1\<rparr>"

definition photo_world :: world where
  "photo_world = \<lparr>files = [(''b.png'', ImageFile photo_image)],
                   save_ok = (\<lambda>p. True), save_truncates = (\<lambda>p. True)\<rparr>"

definition readonly_world :: world where
  "readonly_world = \<lparr>files = [(''a.png'', ImageFile wide_image),
                               (''old.ico'', IcoFile wide_image [])],
                      save_ok = (\<lambda>p. False), save_truncates = (\<lambda>p. True)\<rparr>"

text \<open>What a run leaves behind, without the write oracle: the files and the printed lines.\<close>

definition observe :: "world \<times> line list \<Rightarrow> (string \<times> file_content) list \<times> line list" where
  "observe r = (files (fst r), snd r)"

section \<open>Facts about the primitives\<close>

subsection \<open>Decimal formatting is injective\<close>

lemma digit_char_code: "d < 10 \<Longrightarrow> of_char (digit_char d) = (48 + d :: nat)"
proof -
  assume "d < 10"
  then consider "d = 0" | "d = 1" | "d = 2" | "d = 3" | "d = 4" | "d = 5" | "d = 6" | "d = 7"
    | "d = 8" | "d = 9"
    by atomize_elim arith
  then show ?thesis
    by cases (simp_all add: digit_char_def)
qed

lemma digit_char_inj: "a < 10 \<Longrightarrow> b < 10 \<Longrightarrow> digit_char a = digit_char b \<Longrightarrow> a = b"
proof -
  assume a: "a < 10" and b: "b < 10" and eq: "digit_char a = digit_char b"
  have "(48 + a :: nat) = of_char (digit_char a)" using a by (simp add: digit_char_code)
  also have "\<dots> = of_char (digit_char b)" using eq by simp
  also have "\<dots> = 48 + b" using b by (simp add: digit_char_code)
  finally show "a = b" by simp
qed

lemma str_nat_nonempty: "str_nat n \<noteq> []"
  by (subst str_nat.simps) simp

lemma str_nat_inj: "str_nat n = str_nat m \<Longrightarrow> n = m"
proof (induction n arbitrary: m rule: str_nat.induct)
  case (1 n)
  show ?case
  proof (cases "n < 10")
    case small_n: True
    show ?thesis
    proof (cases "m < 10")
      case True
      with small_n "1.prems" show ?thesis
        by (simp add: str_nat.simps [of n] str_nat.simps [of m] digit_char_inj)
    next
      case False
      with small_n "1.prems" have "str_nat (m div 10) = []"
        by (simp add: str_nat.simps [of n] str_nat.simps [of m])
      then show ?thesis by (simp add: str_nat_nonempty)
    qed
  next
    case big_n: False
    show ?thesis
    proof (cases "m < 10")
      case True
      with big_n "1.prems" have "str_nat (n div 10) = []"
        by (simp add: str_nat.simps [of n] str_nat.simps [of m])
      then show ?thesis by (simp add: str_nat_nonempty)
    next
      case False
      with big_n "1.prems" have eq: "str_nat (n div 10) = str_nat (m div 10)"
        and dg: "digit_char (n mod 10) = digit_char (m mod 10)"
        by (simp_all add: str_nat.simps [of n] str_nat.simps [of m])
      from "1.IH" [OF big_n eq] have "n div 10 = m div 10" .
      moreover from dg have "n mod 10 = m mod 10"
        by (intro digit_char_inj) simp_all
      ultimately show ?thesis
        by (metis div_mult_mod_eq)
    qed
  qed
qed

lemma str_int_inj_nonneg: "0 \<le> i \<Longrightarrow> 0 \<le> j \<Longrightarrow> str_int i = str_int j \<Longrightarrow> i = j"
  by (auto simp: str_int_def dest: str_nat_inj)

subsection \<open>The overwrite loop ends on a free path\<close>

lemma os_path_join_prefix:
  "pre \<noteq> [] \<Longrightarrow> \<exists>P. \<forall>rest. os_path_join d (pre @ rest) = P @ pre @ rest"
proof (cases "hd pre = CHR ''/''")
  case True
  assume "pre \<noteq> []"
  with True have "\<forall>rest. os_path_join d (pre @ rest) = [] @ pre @ rest"
    by (simp add: os_path_join_def)
  then show ?thesis by blast
next
  case False
  assume "pre \<noteq> []"
  with False have "\<forall>rest. os_path_join d (pre @ rest)
      = (if d = [] \<or> last d = CHR ''/'' then d else d @ ''/'') @ pre @ rest"
    by (simp add: os_path_join_def)
  then show ?thesis by blast
qed

lemma numbered_path_inj:
  assumes "0 \<le> i" "0 \<le> j" "numbered_path d nm t e i = numbered_path d nm t e j"
  shows "i = j"
proof -
  have "nm @ t @ ''_'' \<noteq> []" by simp
  from os_path_join_prefix [OF this, of d] obtain P where
    P: "\<And>rest. os_path_join d ((nm @ t @ ''_'') @ rest) = P @ (nm @ t @ ''_'') @ rest"
    by blast
  have "numbered_path d nm t e i = P @ (nm @ t @ ''_'') @ (str_int i @ e)"
    using P [of "str_int i @ e"] by (simp add: numbered_path_def)
  moreover have "numbered_path d nm t e j = P @ (nm @ t @ ''_'') @ (str_int j @ e)"
    using P [of "str_int j @ e"] by (simp add: numbered_path_def)
  ultimately have "str_int i = str_int j"
    using assms(3) by simp
  with assms(1,2) show ?thesis by (rule str_int_inj_nonneg)
qed

lemma path_exists_iff: "path_exists w p \<longleftrightarrow> p \<in> fst ` set (files w)"
  by (simp add: path_exists_def map_of_eq_None_iff)

lemma free_numbered_path_exists:
  assumes "0 \<le> c"
  shows "\<exists>n. \<not> path_exists w (numbered_path d nm t e (c + int n))"
proof (rule ccontr)
  assume "\<not> ?thesis"
  then have all: "\<And>n. numbered_path d nm t e (c + int n) \<in> fst ` set (files w)"
    by (simp add: path_exists_iff)
  have "inj (\<lambda>n. numbered_path d nm t e (c + int n))"
  proof (rule injI)
    fix x y
    assume "numbered_path d nm t e (c + int x) = numbered_path d nm t e (c + int y)"
    then have "c + int x = c + int y"
      using assms by (intro numbered_path_inj [of _ _ d nm t e]) simp_all
    then show "x = y" by simp
  qed
  then have "infinite (range (\<lambda>n. numbered_path d nm t e (c + int n)))"
    by (simp add: finite_image_iff)
  moreover have "range (\<lambda>n. numbered_path d nm t e (c + int n)) \<subseteq> fst ` set (files w)"
    using all by blast
  ultimately show False
    by (meson finite_imageI finite_set finite_subset)
qed

lemma avoid_overwrite_run:
  assumes "\<forall>j<n. path_exists w (numbered_path d nm t e (c + int j))"
    and "\<not> path_exists w (numbered_path d nm t e (c + int n))"
    and "path_exists w p"
  shows "avoid_overwrite w d nm t e p c = Some (numbered_path d nm t e (c + int n))"
  using assms
proof (induction n arbitrary: p c)
  case 0
  then show ?case
    by (simp add: avoid_overwrite.simps [of w d nm t e p c]
        avoid_overwrite.simps [of w d nm t e _ "c + 1"] numbered_path_def)
next
  case (Suc n)
  have first: "path_exists w (numbered_path d nm t e c)"
    using Suc.prems(1) by (metis add.right_neutral of_nat_0 zero_less_Suc)
  have "avoid_overwrite w d nm t e (numbered_path d nm t e c) (c + 1)
      = Some (numbered_path d nm t e ((c + 1) + int n))"
  proof (rule Suc.IH)
    show "\<forall>j<n. path_exists w (numbered_path d nm t e (c + 1 + int j))"
    proof (intro allI impI)
      fix j assume "j < n"
      then have "Suc j < Suc n" by simp
      with Suc.prems(1) have "path_exists w (numbered_path d nm t e (c + int (Suc j)))"
        by blast
      moreover have "c + int (Suc j) = c + 1 + int j" by simp
      ultimately show "path_exists w (numbered_path d nm t e (c + 1 + int j))"
        by (simp add: algebra_simps)
    qed
    have "c + int (Suc n) = c + 1 + int n" by simp
    with Suc.prems(2) show "\<not> path_exists w (numbered_path d nm t e (c + 1 + int n))"
      by (simp add: algebra_simps)
    show "path_exists w (numbered_path d nm t e c)" by (rule first)
  qed
  moreover have "c + 1 + int n = c + int (Suc n)" by simp
  moreover have "avoid_overwrite w d nm t e p c
      = avoid_overwrite w d nm t e (numbered_path d nm t e c) (c + 1)"
    using Suc.prems(3) by (simp add: avoid_overwrite.simps [of w d nm t e p c] numbered_path_def)
  ultimately show ?case by (simp add: algebra_simps)
qed

lemma avoid_overwrite_free:
  "\<not> path_exists w p \<Longrightarrow> avoid_overwrite w d nm t e p c = Some p"
  by (simp add: avoid_overwrite.simps [of w d nm t e p c])

subsection \<open>Integers below \<open>2 ^ 53\<close> are exact floats\<close>

lemma bit_length_nonpos: "n \<le> 0 \<Longrightarrow> bit_length n = 0"
  by (simp add: bit_length.simps [of n])

lemma bit_length_le: "n < 2 ^ k \<Longrightarrow> bit_length n \<le> k"
proof (induction k arbitrary: n)
  case 0
  then show ?case by (simp add: bit_length_nonpos)
next
  case (Suc k)
  show ?case
  proof (cases "n \<le> 0")
    case True
    then show ?thesis by (simp add: bit_length_nonpos)
  next
    case False
    from Suc.prems have "n div 2 < 2 ^ k" by simp
    then have "bit_length (n div 2) \<le> k" by (rule Suc.IH)
    with False show ?thesis by (simp add: bit_length.simps [of n])
  qed
qed

lemma bit_length_one: "bit_length 1 = 1"
  by (simp add: bit_length.simps [of 1] bit_length_nonpos)

lemma ilog2_of_int_le:
  assumes "0 < n" "n < 2 ^ 53"
  shows "ilog2 (of_int n) \<le> 52"
proof -
  have "bit_length n \<le> 53" using assms(2) by (rule bit_length_le)
  then show ?thesis
    by (simp add: ilog2_def Let_def bit_length_one)
qed

lemma round_half_even_of_int: "round_half_even (of_int k) = k"
  by (simp add: round_half_even_def)

lemma pow2_pos: "0 < pow2 e"
  by (simp add: pow2_def)

lemma float_round_of_int:
  assumes "0 < n" "n < 2 ^ 53"
  shows "float_round (of_int n) = Some (of_int n)"
proof -
  define e where "e = max (ilog2 \<bar>of_int n\<bar>) (- 1022)"
  define k where "k = nat (52 - e)"
  have abs_n: "\<bar>of_int n :: rat\<bar> = of_int n" using assms(1) by simp
  have e_le: "e \<le> 52"
    using ilog2_of_int_le [OF assms] by (simp add: e_def abs_n)
  have q: "pow2 (e - 52) = 1 / 2 ^ k"
    using e_le by (cases "e = 52") (simp_all add: pow2_def k_def)
  have r: "round_half_even (of_int n * 2 ^ k) = n * 2 ^ k"
    using round_half_even_of_int [of "n * 2 ^ k"] by simp
  have y: "of_int (round_half_even (of_int n / pow2 (e - 52))) * pow2 (e - 52) = (of_int n :: rat)"
    by (simp add: r q)
  have small: "\<not> 1024 \<le> ilog2 \<bar>of_int n :: rat\<bar>"
    using ilog2_of_int_le [OF assms] by (simp add: abs_n)
  have nz: "(of_int n :: rat) \<noteq> 0" using assms(1) by simp
  show ?thesis
    unfolding float_round_def Let_def e_def [symmetric]
    using nz small by (simp only: y if_False simp_thms)
qed

lemma float_round_one: "float_round 1 = Some 1"
  using float_round_of_int [of 1] by simp

lemma py_truediv_self: "n \<noteq> 0 \<Longrightarrow> py_truediv n n = Inr 1"
  by (simp add: py_truediv_def float_round_one)

lemma int_of_product_one:
  "0 < n \<Longrightarrow> n < 2 ^ 53 \<Longrightarrow> int_of_product n 1 = Inr n"
  by (simp add: int_of_product_def float_round_of_int py_trunc_def)

lemma scaled_size_same:
  "0 < a \<Longrightarrow> a < 2 ^ 53 \<Longrightarrow> 0 < b \<Longrightarrow> b < 2 ^ 53 \<Longrightarrow> scaled_size a b a b = Inr (a, b)"
  by (simp add: scaled_size_def fit_ratio_def py_truediv_self int_of_product_one)

subsection \<open>The output path is always found, and is free\<close>

lemma avoid_overwrite_characterised:
  assumes "0 \<le> c"
  shows "\<exists>r. avoid_overwrite w d nm t e p c = Some r \<and> \<not> path_exists w r \<and>
           (if path_exists w p
            then \<exists>n. c \<le> n \<and> r = numbered_path d nm t e n \<and>
                     (\<forall>k. c \<le> k \<and> k < n \<longrightarrow> path_exists w (numbered_path d nm t e k))
            else r = p)"
proof (cases "path_exists w p")
  case False
  then show ?thesis by (simp add: avoid_overwrite_free)
next
  case True
  define free where "free n \<longleftrightarrow> \<not> path_exists w (numbered_path d nm t e (c + int n))" for n
  from free_numbered_path_exists [OF assms, of w d nm t e] have "\<exists>n. free n"
    by (simp add: free_def)
  then obtain n0 where "free n0" ..
  define n where "n = (LEAST n. free n)"
  have free_n: "free n"
    unfolding n_def using \<open>free n0\<close> by (rule LeastI)
  have below: "\<not> free j" if "j < n" for j
    using that unfolding n_def by (rule not_less_Least)
  have run: "avoid_overwrite w d nm t e p c = Some (numbered_path d nm t e (c + int n))"
  proof (rule avoid_overwrite_run)
    show "\<forall>j<n. path_exists w (numbered_path d nm t e (c + int j))"
      using below by (simp add: free_def)
    show "\<not> path_exists w (numbered_path d nm t e (c + int n))"
      using free_n by (simp add: free_def)
    show "path_exists w p" by (rule True)
  qed
  have before: "path_exists w (numbered_path d nm t e k)" if "c \<le> k" "k < c + int n" for k
  proof -
    have "nat (k - c) < n" using that by linarith
    then have "\<not> free (nat (k - c))" by (rule below)
    moreover have "c + int (nat (k - c)) = k" using that(1) by simp
    ultimately show ?thesis by (simp add: free_def)
  qed
  have "c \<le> c + int n \<and> numbered_path d nm t e (c + int n) = numbered_path d nm t e (c + int n)
      \<and> (\<forall>k. c \<le> k \<and> k < c + int n \<longrightarrow> path_exists w (numbered_path d nm t e k))"
    using before by simp
  then have "\<exists>m. c \<le> m \<and> numbered_path d nm t e (c + int n) = numbered_path d nm t e m
      \<and> (\<forall>k. c \<le> k \<and> k < m \<longrightarrow> path_exists w (numbered_path d nm t e k))"
    by (rule exI)
  with run free_n True show ?thesis
    unfolding free_def by simp
qed

lemma derive_output_path_total:
  "\<exists>p. derive_output_path w input_path output_suffix width height mode = Some p
       \<and> \<not> path_exists w p"
proof -
  obtain dirname basename where sp: "os_path_split input_path = (dirname, basename)"
    by (cases "os_path_split input_path")
  obtain name ext where se: "os_path_splitext basename = (name, ext)"
    by (cases "os_path_splitext basename")
  have "(0::int) \<le> 1" by simp
  from avoid_overwrite_characterised [OF this] sp se show ?thesis
    unfolding derive_output_path_def Let_def by (simp; blast)
qed

subsection \<open>The runs of the resizer\<close>

lemma resize_png_returns:
  "\<exists>r. resize_png w input_path output_suffix width height mode background keep_aspect quality = Some r"
proof -
  obtain p where "derive_output_path w input_path output_suffix width height mode = Some p"
    using derive_output_path_total by blast
  then show ?thesis
    by (simp add: resize_png_def resize_try_def split: sum.splits prod.splits)
qed

lemma failed_write_fresh: "\<not> path_exists w p \<Longrightarrow> failed_write w p = w"
  by (simp add: failed_write_def)

lemma resize_png_cases:
  assumes "resize_png w input_path output_suffix width height mode background keep_aspect quality
             = Some (w', printed)"
  shows "(\<exists>e. w' = w \<and> printed = [Failed e])
       \<or> (\<exists>p img resized_img.
             image_open w input_path = Inr img
           \<and> derive_output_path w input_path output_suffix width height mode = Some p
           \<and> save_ok w p
           \<and> w' = w\<lparr>files := (p, ImageFile resized_img) # files w\<rparr>
           \<and> printed = [Original_kept input_path, New_generated p,
                         Original_size (img_width img) (img_height img),
                         New_size (img_width resized_img) (img_height resized_img)])"
proof -
  obtain p where p: "derive_output_path w input_path output_suffix width height mode = Some p"
    and free: "\<not> path_exists w p"
    using derive_output_path_total by blast
  from assms p free show ?thesis
    by (auto simp: resize_png_def resize_try_def write_file_def failed_write_fresh
             split: sum.splits option.splits prod.splits if_splits)
qed

lemma wide_run_300:
  "map_option observe
     (resize_png wide_world ''a.png'' None (Some 300) None ''scale'' [255, 255, 255, 0] True 95)
     = Some ((''a_w300_1.png'',
              ImageFile \<lparr>img_width = 300, img_height = 400, img_mode = ''RGB'',
                         img_pixels = Resized (Decoded 0)\<rparr>) # files wide_world,
             [Original_kept ''a.png'', New_generated ''a_w300_1.png'',
              Original_size 1000 400, New_size 300 400])"
  by code_simp

subsection \<open>The rounding error of the scaled size\<close>

text \<open>
  The exponent found by \<open>ilog2\<close> is the right one, so rounding a number in the normal range
  moves it by at most the fraction \<open>2 ^ -53\<close> of its magnitude. For sizes below \<open>2 ^ 31\<close>
  the two roundings of a quotient and a product therefore stay within one pixel of the
  exact product.
\<close>

lemma bit_length_bounds:
  "0 < n \<Longrightarrow> 2 ^ (bit_length n - 1) \<le> n \<and> n < 2 ^ bit_length n"
proof (induction n rule: bit_length.induct)
  case (1 n)
  show ?case
  proof (cases "n = 1")
    case True
    then show ?thesis by (simp add: bit_length_one)
  next
    case False
    with "1.prems" have pos: "0 < n div 2" by simp
    from "1.prems" have nz: "\<not> n \<le> 0" by simp
    from "1.IH" [OF nz pos] have ih: "2 ^ (bit_length (n div 2) - 1) \<le> n div 2"
      "n div 2 < 2 ^ bit_length (n div 2)" by simp_all
    have bl: "bit_length n = Suc (bit_length (n div 2))"
      using nz by (simp add: bit_length.simps [of n])
    have blpos: "0 < bit_length (n div 2)"
      using pos by (simp add: bit_length.simps [of "n div 2"])
    have "2 ^ (bit_length n - 1) = (2::int) * 2 ^ (bit_length (n div 2) - 1)"
      using bl blpos by (cases "bit_length (n div 2)") simp_all
    also have "\<dots> \<le> 2 * (n div 2)" using ih(1) by simp
    also have "\<dots> \<le> n" by simp
    finally have lower: "2 ^ (bit_length n - 1) \<le> n" .
    have "n < 2 * (n div 2 + 1)" by simp
    also have "\<dots> \<le> 2 * 2 ^ bit_length (n div 2)" using ih(2) by simp
    also have "\<dots> = 2 ^ bit_length n" by (simp add: bl)
    finally show ?thesis using lower by simp
  qed
qed

lemma pow2_powi: "pow2 e = 2 powi e"
  by (simp add: pow2_def power_int_def field_simps)

lemma pow2_add: "pow2 (a + b) = pow2 a * pow2 b"
  by (simp add: pow2_powi power_int_add)

lemma pow2_mono: "a \<le> b \<Longrightarrow> pow2 a \<le> pow2 b"
  by (simp add: pow2_powi power_int_increasing)

lemma pow2_nat: "pow2 (int n) = 2 ^ n"
  by (simp add: pow2_def)

lemma ilog2_bounds:
  assumes "0 < x"
  shows "pow2 (ilog2 x) \<le> x \<and> x < pow2 (ilog2 x + 1)"
proof -
  obtain p q where pq: "quotient_of x = (p, q)" by (cases "quotient_of x")
  then have q: "0 < q" and x: "x = rat_of_int p / rat_of_int q"
    by (simp_all add: quotient_of_denom_pos quotient_of_div)
  with assms have p: "0 < p" by (simp add: zero_less_divide_iff)
  define bp where "bp = bit_length p"
  define bq where "bq = bit_length q"
  from bit_length_bounds [OF p] have pb: "2 ^ (bp - 1) \<le> p" "p < 2 ^ bp" by (simp_all add: bp_def)
  from bit_length_bounds [OF q] have qb: "2 ^ (bq - 1) \<le> q" "q < 2 ^ bq" by (simp_all add: bq_def)
  have bp1: "1 \<le> bp" using p by (simp add: bp_def bit_length.simps [of p])
  have bq1: "1 \<le> bq" using q by (simp add: bq_def bit_length.simps [of q])
  have qpos: "0 < rat_of_int q" using q by simp
  have up: "x < pow2 (int bp - int bq + 1)"
  proof -
    have "rat_of_int p < 2 ^ bp" using pb(2) by (metis of_int_less_iff of_int_numeral of_int_power)
    moreover have "(2::rat) ^ (bq - 1) \<le> rat_of_int q"
      using qb(1) by (metis of_int_le_iff of_int_numeral of_int_power)
    ultimately have "rat_of_int p * 2 ^ (bq - 1) < 2 ^ bp * rat_of_int q"
      using qpos p by (intro mult_less_le_imp_less) simp_all
    then have "x * 2 ^ (bq - 1) < 2 ^ bp"
      using qpos by (simp add: x field_simps)
    then have "x < 2 ^ bp / 2 ^ (bq - 1)" by (simp add: field_simps)
    also have "\<dots> = pow2 (int bp) * pow2 (- int (bq - 1))"
      by (simp add: pow2_powi power_int_minus field_simps)
    also have "\<dots> = pow2 (int bp + (- int (bq - 1)))"
      by (simp only: pow2_add)
    also have "int bp + (- int (bq - 1)) = int bp - int bq + 1"
      using bq1 by (simp add: of_nat_diff)
    finally show ?thesis .
  qed
  have low: "pow2 (int bp - int bq - 1) \<le> x"
  proof -
    have "(2::rat) ^ (bp - 1) \<le> rat_of_int p"
      using pb(1) by (metis of_int_le_iff of_int_numeral of_int_power)
    moreover have "rat_of_int q \<le> 2 ^ bq"
      using qb(2) by (metis less_imp_le of_int_le_iff of_int_numeral of_int_power)
    ultimately have "2 ^ (bp - 1) * rat_of_int q \<le> rat_of_int p * 2 ^ bq"
      using qpos p by (intro mult_mono) simp_all
    then have "2 ^ (bp - 1) / 2 ^ bq \<le> x"
      using qpos by (simp add: x field_simps)
    moreover have "(2::rat) ^ (bp - 1) / 2 ^ bq = pow2 (int (bp - 1)) * pow2 (- int bq)"
      by (simp add: pow2_powi power_int_minus field_simps)
    moreover have "int (bp - 1) + (- int bq) = int bp - int bq - 1"
      using bp1 by (simp add: of_nat_diff)
    then have "pow2 (int (bp - 1)) * pow2 (- int bq) = pow2 (int bp - int bq - 1)"
      by (simp only: pow2_add [symmetric])
    ultimately show ?thesis by simp
  qed
  show ?thesis
  proof (cases "pow2 (int bp - int bq) \<le> x")
    case True
    then have "ilog2 x = int bp - int bq"
      by (simp add: ilog2_def pq Let_def bp_def bq_def)
    with True up show ?thesis by simp
  next
    case False
    then have "ilog2 x = int bp - int bq - 1"
      by (simp add: ilog2_def pq Let_def bp_def bq_def)
    with False low show ?thesis by simp
  qed
qed

lemma pow2_less_cancel: "pow2 a < pow2 b \<Longrightarrow> a < b"
  by (rule ccontr) (use pow2_mono [of b a] in simp)

lemma round_half_even_error: "\<bar>rat_of_int (round_half_even r) - r\<bar> \<le> 1 / 2"
proof -
  have "rat_of_int \<lfloor>r\<rfloor> \<le> r" "r < rat_of_int \<lfloor>r\<rfloor> + 1" by linarith+
  then show ?thesis
    by (auto simp: round_half_even_def Let_def abs_le_iff)
qed

lemma float_round_error:
  assumes "pow2 (- 1022) \<le> \<bar>x\<bar>" "\<bar>x\<bar> < pow2 1023"
  shows "\<exists>y. float_round x = Some y \<and> \<bar>y - x\<bar> \<le> \<bar>x\<bar> * pow2 (- 53)"
proof -
  have xpos: "0 < \<bar>x\<bar>" using assms(1) pow2_pos [of "- 1022"] by linarith
  then have xnz: "x \<noteq> 0" by simp
  define e where "e = ilog2 \<bar>x\<bar>"
  from ilog2_bounds [OF xpos] have eb: "pow2 e \<le> \<bar>x\<bar>" "\<bar>x\<bar> < pow2 (e + 1)"
    by (simp_all add: e_def)
  from assms(1) eb(2) have "pow2 (- 1022) < pow2 (e + 1)" by linarith
  then have "- 1022 < e + 1" by (rule pow2_less_cancel)
  then have emax: "max e (- 1022) = e" by simp
  define q where "q = pow2 (e - 52)"
  have qpos: "0 < q" by (simp add: q_def pow2_pos)
  define y where "y = rat_of_int (round_half_even (x / q)) * q"
  have "\<bar>y - x\<bar> = \<bar>rat_of_int (round_half_even (x / q)) - x / q\<bar> * q"
  proof -
    have "y - x = (rat_of_int (round_half_even (x / q)) - x / q) * q"
      using qpos by (simp add: y_def field_simps)
    then show ?thesis using qpos by (simp add: abs_mult)
  qed
  also have "\<dots> \<le> (1 / 2) * q"
    using round_half_even_error [of "x / q"] qpos by (intro mult_right_mono) simp_all
  also have "\<dots> = pow2 e * pow2 (- 53)"
  proof -
    have "pow2 (e - 52) = pow2 (e + (- 53) + 1)" by simp
    also have "\<dots> = pow2 e * pow2 (- 53) * pow2 1" by (simp only: pow2_add)
    finally show ?thesis by (simp add: q_def pow2_def)
  qed
  also have "\<dots> \<le> \<bar>x\<bar> * pow2 (- 53)"
    using eb(1) pow2_pos [of "- 53"] by (intro mult_right_mono) simp_all
  finally have err: "\<bar>y - x\<bar> \<le> \<bar>x\<bar> * pow2 (- 53)" .
  have "pow2 (- 53) \<le> 1" by (simp add: pow2_def)
  then have "\<bar>x\<bar> * pow2 (- 53) \<le> \<bar>x\<bar>"
    using xpos by (simp add: mult_left_le)
  with err have "\<bar>y\<bar> \<le> 2 * \<bar>x\<bar>" by linarith
  also have "\<dots> < 2 * pow2 1023" using assms(2) by simp
  also have "\<dots> = pow2 1024" by (simp add: pow2_def)
  finally have ysmall: "\<bar>y\<bar> < pow2 1024" .
  have noover: "\<not> (y \<noteq> 0 \<and> 1024 \<le> ilog2 \<bar>y\<bar>)"
  proof
    assume h: "y \<noteq> 0 \<and> 1024 \<le> ilog2 \<bar>y\<bar>"
    then have "0 < \<bar>y\<bar>" by simp
    from ilog2_bounds [OF this] have "pow2 (ilog2 \<bar>y\<bar>) \<le> \<bar>y\<bar>" by simp
    moreover from h have "pow2 1024 \<le> pow2 (ilog2 \<bar>y\<bar>)" by (intro pow2_mono) simp
    ultimately show False using ysmall by linarith
  qed
  have "float_round x = (if y \<noteq> 0 \<and> 1024 \<le> ilog2 \<bar>y\<bar> then None else Some y)"
    using xnz
    by (simp only: float_round_def Let_def e_def [symmetric] emax q_def [symmetric]
        y_def [symmetric] if_False)
  with noover have "float_round x = Some y" by (simp only: if_False)
  with err show ?thesis by blast
qed

lemma quotient_range:
  assumes "0 < a" "a < 2 ^ 31" "0 < b" "b < 2 ^ 31"
  shows "pow2 (- 31) \<le> rat_of_int a / rat_of_int b" "rat_of_int a / rat_of_int b < pow2 31"
proof -
  have a: "1 \<le> rat_of_int a" "rat_of_int a < 2 ^ 31"
    using assms(1,2) by (simp_all add: of_int_less_numeral_power_cancel_iff)
  have b: "1 \<le> rat_of_int b" "rat_of_int b < 2 ^ 31"
    using assms(3,4) by (simp_all add: of_int_less_numeral_power_cancel_iff)
  have "(2::rat) ^ 31 * 1 \<le> 2 ^ 31 * rat_of_int a"
    using a(1) by (intro mult_left_mono) simp_all
  then have "rat_of_int b \<le> 2 ^ 31 * rat_of_int a"
    using b(2) by linarith
  then show "pow2 (- 31) \<le> rat_of_int a / rat_of_int b"
    using b(1) by (simp add: pow2_def field_simps)
  have "(2::rat) ^ 31 * 1 \<le> 2 ^ 31 * rat_of_int b"
    using b(1) by (intro mult_left_mono) simp_all
  then have "rat_of_int a < 2 ^ 31 * rat_of_int b"
    using a(2) by linarith
  then show "rat_of_int a / rat_of_int b < pow2 31"
    using b(1) by (simp add: pow2_def field_simps)
qed

lemma py_truediv_error:
  assumes "0 < a" "a < 2 ^ 31" "0 < b" "b < 2 ^ 31"
  shows "\<exists>q. py_truediv a b = Inr q
      \<and> \<bar>q - rat_of_int a / rat_of_int b\<bar> \<le> (rat_of_int a / rat_of_int b) * pow2 (- 53)"
proof -
  define x where "x = rat_of_int a / rat_of_int b"
  from quotient_range [OF assms] have r: "pow2 (- 31) \<le> x" "x < pow2 31" by (simp_all add: x_def)
  have xpos: "0 < x" using r(1) pow2_pos [of "- 31"] by linarith
  have "pow2 (- 1022) \<le> pow2 (- 31)" by (intro pow2_mono) simp
  with r(1) xpos have lo: "pow2 (- 1022) \<le> \<bar>x\<bar>" by simp
  have "pow2 31 \<le> pow2 1023" by (intro pow2_mono) simp
  with r(2) xpos have hi: "\<bar>x\<bar> < pow2 1023" by simp
  from float_round_error [OF lo hi] obtain y where
    y: "float_round x = Some y" "\<bar>y - x\<bar> \<le> \<bar>x\<bar> * pow2 (- 53)" by blast
  have "\<bar>x\<bar> = x" using xpos by simp
  with y(2) have err: "\<bar>y - x\<bar> \<le> x * pow2 (- 53)" by simp
  have "py_truediv a b = Inr y"
    using y(1) assms(3) by (simp add: py_truediv_def x_def [symmetric])
  with err show ?thesis unfolding x_def by blast
qed

lemma floor_near:
  fixes z Z :: rat
  assumes "\<bar>z - Z\<bar> < 1"
  shows "\<bar>\<lfloor>z\<rfloor> - \<lfloor>Z\<rfloor>\<bar> \<le> 1"
proof -
  have "z < Z + 1" "Z < z + 1" using assms by (simp_all add: abs_less_iff)
  then have "\<lfloor>z\<rfloor> \<le> \<lfloor>Z + 1\<rfloor>" "\<lfloor>Z\<rfloor> \<le> \<lfloor>z + 1\<rfloor>"
    by (intro floor_mono, linarith)+
  then show ?thesis by simp
qed

lemma int_of_product_near:
  assumes n: "0 < n" "n < 2 ^ 31"
    and r: "pow2 (- 31) \<le> r" "rat_of_int n * r \<le> 2 ^ 31"
    and rho: "\<bar>\<rho> - r\<bar> \<le> r * pow2 (- 53)"
  shows "\<exists>t. int_of_product n \<rho> = Inr t \<and> \<bar>t - \<lfloor>rat_of_int n * r\<rfloor>\<bar> \<le> 1"
proof -
  define u where "u = pow2 (- 53)"
  have u: "0 < u" "u \<le> 1 / 2" "u = 1 / 2 ^ 53" by (simp_all add: u_def pow2_def)
  have rpos: "0 < r" using r(1) pow2_pos [of "- 31"] by linarith
  have n1: "1 \<le> rat_of_int n" using n(1) by simp
  define Z where "Z = rat_of_int n * r"
  define P where "P = rat_of_int n * \<rho>"
  have Zpos: "0 < Z" using n1 rpos by (simp add: Z_def)
  have Zhi: "Z \<le> 2 ^ 31" using r(2) by (simp add: Z_def)
  have "\<bar>P - Z\<bar> = rat_of_int n * \<bar>\<rho> - r\<bar>"
    using n1 by (simp add: P_def Z_def right_diff_distrib [symmetric] abs_mult)
  also have "\<dots> \<le> rat_of_int n * (r * u)"
    using rho n1 by (intro mult_left_mono) (simp_all add: u_def)
  finally have PZ: "\<bar>P - Z\<bar> \<le> Z * u" by (simp add: Z_def mult.assoc)
  have Zu: "Z * u \<le> Z / 2" using u(2) Zpos by (simp add: field_simps)
  from PZ Zu have Plo: "Z / 2 \<le> P" and Phi: "P \<le> 2 * Z" by linarith+
  have Ppos: "0 < P" using Plo Zpos by linarith
  have "1 * r \<le> rat_of_int n * r" using n1 rpos by (intro mult_right_mono) simp_all
  with r(1) have "pow2 (- 31) \<le> Z" by (simp add: Z_def)
  then have "pow2 (- 31) / 2 \<le> P" using Plo by linarith
  moreover have "pow2 (- 1022) \<le> pow2 (- 32)" by (intro pow2_mono) simp
  moreover have "pow2 (- 32) = pow2 (- 31) / 2" by (simp add: pow2_def)
  ultimately have lo: "pow2 (- 1022) \<le> \<bar>P\<bar>" using Ppos by simp
  have "P \<le> 2 ^ 32" using Phi Zhi by simp
  moreover have "(2::rat) ^ 32 < pow2 1023"
  proof -
    have "pow2 32 < pow2 1023" by (simp add: pow2_powi power_int_strict_increasing)
    moreover have "pow2 32 = 2 ^ 32" using pow2_nat [of 32] by simp
    ultimately show ?thesis by (simp only:)
  qed
  ultimately have hi: "\<bar>P\<bar> < pow2 1023" using Ppos by simp
  from float_round_error [OF lo hi] obtain z where
    z: "float_round P = Some z" "\<bar>z - P\<bar> \<le> \<bar>P\<bar> * pow2 (- 53)" by blast
  have zP: "\<bar>z - P\<bar> \<le> P * u" using z(2) Ppos by (simp add: u_def)
  have "P * u \<le> 2 * Z * u" using Phi u(1) by simp
  with zP PZ have "\<bar>z - Z\<bar> \<le> 3 * Z * u" by linarith
  also have "\<dots> \<le> 3 * 2 ^ 31 * u" using Zhi u(1) by simp
  also have "\<dots> < 1" by (simp add: u(3))
  finally have near: "\<bar>z - Z\<bar> < 1" .
  have "P * u \<le> P" using u(2) Ppos by (simp add: mult_left_le)
  with zP have znonneg: "0 \<le> z" by linarith
  have "n < 2 ^ 53" using n(2) by (rule less_trans) simp
  with n(1) have "float_round (rat_of_int n) = Some (rat_of_int n)"
    by (rule float_round_of_int)
  with z(1) znonneg have "int_of_product n \<rho> = Inr \<lfloor>z\<rfloor>"
    by (simp add: int_of_product_def P_def py_trunc_def)
  with floor_near [OF near] show ?thesis by (simp add: Z_def)
qed

lemma scaled_size_near:
  assumes "0 < a" "a < 2 ^ 31" "0 < b" "b < 2 ^ 31" "0 < ow" "ow < 2 ^ 31" "0 < oh" "oh < 2 ^ 31"
    and "r = min (rat_of_int a / rat_of_int ow) (rat_of_int b / rat_of_int oh)"
  shows "\<exists>tw th. scaled_size a b ow oh = Inr (tw, th)
      \<and> \<bar>tw - \<lfloor>rat_of_int ow * r\<rfloor>\<bar> \<le> 1 \<and> \<bar>th - \<lfloor>rat_of_int oh * r\<rfloor>\<bar> \<le> 1"
proof -
  define u where "u = pow2 (- 53)"
  have u: "0 < u" "u \<le> 1" by (simp_all add: u_def pow2_def)
  define x where "x = rat_of_int a / rat_of_int ow"
  define y where "y = rat_of_int b / rat_of_int oh"
  from py_truediv_error [OF assms(1,2,5,6)] obtain ra where
    ra: "py_truediv a ow = Inr ra" "\<bar>ra - x\<bar> \<le> x * u" by (auto simp: x_def u_def)
  from py_truediv_error [OF assms(3,4,7,8)] obtain rb where
    rb: "py_truediv b oh = Inr rb" "\<bar>rb - y\<bar> \<le> y * u" by (auto simp: y_def u_def)
  from quotient_range [OF assms(1,2,5,6)] have xr: "pow2 (- 31) \<le> x" by (simp add: x_def)
  from quotient_range [OF assms(3,4,7,8)] have yr: "pow2 (- 31) \<le> y" by (simp add: y_def)
  have xpos: "0 < x" using xr pow2_pos [of "- 31"] by linarith
  have ypos: "0 < y" using yr pow2_pos [of "- 31"] by linarith
  have r: "r = min x y" by (simp add: assms(9) x_def y_def)
  have rlo: "pow2 (- 31) \<le> r" using xr yr by (simp add: r)
  have rho: "\<bar>min ra rb - r\<bar> \<le> r * u"
  proof (cases "x \<le> y")
    case True
    then have rx: "r = x" by (simp add: r)
    have "x * u \<le> y * u" using True u(1) by simp
    moreover have "x - x * u \<le> y - y * u"
    proof -
      have "x * (1 - u) \<le> y * (1 - u)" using True u(2) by (intro mult_right_mono) simp_all
      then show ?thesis by (simp add: algebra_simps)
    qed
    ultimately show ?thesis using ra(2) rb(2) unfolding rx by linarith
  next
    case False
    then have ry: "r = y" and yx: "y \<le> x" by (simp_all add: r)
    have "y - y * u \<le> x - x * u"
    proof -
      have "y * (1 - u) \<le> x * (1 - u)" using yx u(2) by (intro mult_right_mono) simp_all
      then show ?thesis by (simp add: algebra_simps)
    qed
    moreover have "y * u \<le> x * u" using yx u(1) by simp
    ultimately show ?thesis using ra(2) rb(2) unfolding ry by linarith
  qed
  have owpos: "0 < rat_of_int ow" and ohpos: "0 < rat_of_int oh" using assms(5,7) by simp_all
  have "rat_of_int ow * r \<le> rat_of_int ow * x" using owpos by (simp add: r)
  also have "\<dots> = rat_of_int a" using owpos by (simp add: x_def)
  also have "\<dots> \<le> 2 ^ 31" using assms(2) by (simp add: of_int_less_numeral_power_cancel_iff less_imp_le)
  finally have wb: "rat_of_int ow * r \<le> 2 ^ 31" .
  have "rat_of_int oh * r \<le> rat_of_int oh * y" using ohpos by (simp add: r)
  also have "\<dots> = rat_of_int b" using ohpos by (simp add: y_def)
  also have "\<dots> \<le> 2 ^ 31" using assms(4) by (simp add: of_int_less_numeral_power_cancel_iff less_imp_le)
  finally have hb: "rat_of_int oh * r \<le> 2 ^ 31" .
  from int_of_product_near [OF assms(5,6) rlo wb] rho obtain tw where
    tw: "int_of_product ow (min ra rb) = Inr tw" "\<bar>tw - \<lfloor>rat_of_int ow * r\<rfloor>\<bar> \<le> 1"
    by (auto simp: u_def)
  from int_of_product_near [OF assms(7,8) rlo hb] rho obtain th where
    th: "int_of_product oh (min ra rb) = Inr th" "\<bar>th - \<lfloor>rat_of_int oh * r\<rfloor>\<bar> \<le> 1"
    by (auto simp: u_def)
  from ra(1) rb(1) tw th show ?thesis
    by (simp add: scaled_size_def fit_ratio_def)
qed

subsection \<open>Exact cases of the scaled size\<close>

lemma py_trunc_nonneg: "0 \<le> x \<Longrightarrow> py_trunc x = \<lfloor>x\<rfloor>"
  by (simp add: py_trunc_def)

lemma scaled_size_exact:
  assumes "ow \<noteq> 0" "oh \<noteq> 0"
    and "representable (rat_of_int a / rat_of_int ow)"
    and "representable (rat_of_int b / rat_of_int oh)"
    and "r = min (rat_of_int a / rat_of_int ow) (rat_of_int b / rat_of_int oh)"
    and "representable (rat_of_int ow)" "representable (rat_of_int oh)"
    and "representable (rat_of_int ow * r)" "representable (rat_of_int oh * r)"
    and "0 \<le> rat_of_int ow * r" "0 \<le> rat_of_int oh * r"
  shows "scaled_size a b ow oh = Inr (\<lfloor>rat_of_int ow * r\<rfloor>, \<lfloor>rat_of_int oh * r\<rfloor>)"
proof -
  have ratio: "fit_ratio a b ow oh = Inr r"
    using assms(1-5) by (simp add: fit_ratio_def py_truediv_def representable_def)
  have "int_of_product ow r = Inr \<lfloor>rat_of_int ow * r\<rfloor>"
    using assms(6,8,10) by (simp add: int_of_product_def representable_def py_trunc_nonneg)
  moreover have "int_of_product oh r = Inr \<lfloor>rat_of_int oh * r\<rfloor>"
    using assms(7,9,11) by (simp add: int_of_product_def representable_def py_trunc_nonneg)
  ultimately show ?thesis
    using ratio by (simp add: scaled_size_def)
qed

lemma representable_examples:
  "representable (rat_of_int 500 / rat_of_int 1000) \<and> representable (rat_of_int 500 / rat_of_int 400)
   \<and> representable (rat_of_int 1000) \<and> representable (rat_of_int 400)
   \<and> representable (rat_of_int 1000 * (1 / 2)) \<and> representable (rat_of_int 400 * (1 / 2))"
  by code_simp

subsection \<open>Runs and parses used below\<close>


lemma resize_each_positive:
  "list_all (\<lambda>sz. 1 \<le> fst sz \<and> 1 \<le> snd sz) sizes \<Longrightarrow>
     \<exists>imgs. resize_each img sizes = Inr imgs \<and> length imgs = length sizes"
  by (induction sizes) (auto simp: image_resize_def)

lemma square_sizes_fail:
  "list_ex (\<lambda>s. isl (py_int_of_str s)) parts \<Longrightarrow> isl (square_sizes parts)"
  by (induction parts) (auto split: sum.splits)

lemma cli_sizes_abc: "cli_sizes (Some ''16,abc'') = Inl (IntParseError ''abc'')"
  by code_simp

lemma apply_mode_same_size:
  assumes "0 < img_width img" "img_width img < 2 ^ 53" "0 < img_height img" "img_height img < 2 ^ 53"
    and "mode \<in> {''scale'', ''crop'', ''pad'', ''stretch''}"
    and "length background = 4"
  shows "\<exists>resized_img. apply_mode img mode (img_width img) (img_height img) background = Inr resized_img
           \<and> img_width resized_img = img_width img \<and> img_height resized_img = img_height img"
proof -
  have pad: "\<exists>resized_img. pad_image img (img_width img) (img_height img) background = Inr resized_img
           \<and> img_width resized_img = img_width img \<and> img_height resized_img = img_height img"
    using assms(1-4,6)
    by (simp add: pad_image_def Let_def scaled_size_same image_resize_def image_new_rgba_def
        image_paste_def image_convert_rgba_def)
  from assms(5) consider "mode = ''scale''" | "mode = ''crop''" | "mode = ''pad''" | "mode = ''stretch''"
    by blast
  then show ?thesis
  proof cases
    case 1
    with assms(1,3) show ?thesis by (simp add: apply_mode_def image_resize_def)
  next
    case 2
    with assms(1,3) show ?thesis by (simp add: apply_mode_def imageops_fit_def)
  next
    case 3
    with pad show ?thesis by (simp add: apply_mode_def)
  next
    case 4
    with assms(1,3) show ?thesis by (simp add: apply_mode_def image_resize_def)
  qed
qed

section \<open>The claims\<close>

subsection \<open>Padding to 500x500 (C1)\<close>

text \<open>
  C1 says that mode \<^verbatim>\<open>pad\<close> with width 500, height 500, background \<open>(0,0,0,0)\<close> and
  \<^verbatim>\<open>keep_aspect\<close> true turns a 1000x400 image into a 500x500 canvas with the 500x200
  scaled image pasted at offset \<open>(0,150)\<close>. The code, run on exactly this input, first
  shrinks the target itself to 500x200 (line 62 applies to every mode but \<^verbatim>\<open>stretch\<close>), so
  the canvas of line 87 is 500x200, the offset of line 88 is \<open>(0,0)\<close>, and the image
  written is 500x200.
\<close>

theorem pad_500_on_1000x400:
  "target_size True (Some 500) (Some 500) ''pad'' 1000 400 = Inr (500, 200)
   \<and> map_option observe
        (resize_png wide_world ''a.png'' None (Some 500) (Some 500) ''pad'' [0, 0, 0, 0] True 95)
     = Some ((''a_500x500_pad.png'',
              ImageFile \<lparr>img_width = 500, img_height = 200, img_mode = ''RGBA'',
                         img_pixels = Pasted (Blank [0, 0, 0, 0])
                                             (Resized (Converted (Decoded 0))) (0, 0)\<rparr>)
             # files wide_world,
             [Original_kept ''a.png'', New_generated ''a_500x500_pad.png'',
              Original_size 1000 400, New_size 500 200])"
  by code_simp

subsection \<open>Scaling with the width alone (C2)\<close>

text \<open>
  C2 says that mode \<^verbatim>\<open>scale\<close> with width 300 and no height resolves a 600x400 image to
  the target \<open>(300, 200)\<close>. The code, run on exactly this input, takes the branch of lines
  67--68: the missing height is replaced by the original height, the target is
  \<open>(300, 400)\<close>, and the image written is 300x400.
\<close>

theorem scale_width_300_on_600x400:
  "target_size True (Some 300) None ''scale'' 600 400 = Inr (300, 400)
   \<and> map_option observe
        (resize_png photo_world ''b.png'' None (Some 300) None ''scale'' [255, 255, 255, 0] True 95)
     = Some ((''b_w300.png'',
              ImageFile \<lparr>img_width = 300, img_height = 400, img_mode = ''RGB'',
                         img_pixels = Resized (Decoded 1)\<rparr>)
             # files photo_world,
             [Original_kept ''b.png'', New_generated ''b_w300.png'',
              Original_size 600 400, New_size 300 400])"
  by code_simp

subsection \<open>Failures of the icon converter (C3)\<close>

text \<open>
  C3, as stated, fails: a non-numeric entry in the sizes string is not absorbed. The list
  comprehension of line 48 runs before \<^verbatim>\<open>png_to_ico\<close> is called and outside any \<^verbatim>\<open>try\<close>, so
  the \<^verbatim>\<open>ValueError\<close> of \<^verbatim>\<open>int('abc')\<close> leaves the script uncaught.
\<close>

theorem invalid_size_escapes:
  "ico_main wide_world ''a.png'' None (Some ''16,abc'') = Inl (IntParseError ''abc'')"
  by (simp add: ico_main_def cli_sizes_abc)

text \<open>
  C3, amended: every failure inside \<^verbatim>\<open>png_to_ico\<close> is absorbed: an input that cannot be
  opened, and any exception of the \<^verbatim>\<open>try\<close> block, among them a failed save, print one error
  line, and the function returns normally. The files are then as they were, except after
  a failed save, which leaves what \<open>failed_write\<close> describes: an output file that existed
  before and was opened for writing no longer decodes, and every other file is as it
  was. A sizes string with an entry that \<^verbatim>\<open>int\<close> rejects raises before \<^verbatim>\<open>png_to_ico\<close> is called,
  and the exception propagates out of the script.
\<close>

theorem ico_failure_handling:
  "(image_open w input_path = Inl e1 \<longrightarrow>
      png_to_ico w input_path output_path sizes = (w, [Ico_error e1]))
   \<and> (snd (ico_try w input_path out szs) = Inl e2 \<longrightarrow>
      snd (png_to_ico w input_path (Some out) (Some szs)) = [Ico_error e2]
      \<and> (fst (png_to_ico w input_path (Some out) (Some szs)) = w
          \<or> e2 = SaveError
            \<and> fst (png_to_ico w input_path (Some out) (Some szs)) = failed_write w out))
   \<and> (image_open w input_path = Inr img \<and> szs3 \<noteq> []
        \<and> list_all (\<lambda>sz. 1 \<le> fst sz \<and> 1 \<le> snd sz) szs3 \<and> \<not> save_ok w out3 \<longrightarrow>
      png_to_ico w input_path (Some out3) (Some szs3)
        = (failed_write w out3, [Ico_error SaveError]))
   \<and> (\<forall>q. q \<noteq> out3 \<longrightarrow> map_of (files (failed_write w out3)) q = map_of (files w) q)
   \<and> (\<not> path_exists w out3 \<longrightarrow> failed_write w out3 = w)
   \<and> (save_truncates w out3 \<and> path_exists w out3 \<longrightarrow>
        map_of (files (failed_write w out3)) out3 = Some OtherFile)
   \<and> (cli_sizes sizes_arg = Inl e4 \<longrightarrow> ico_main w input_path output_path sizes_arg = Inl e4)
   \<and> (list_ex (\<lambda>part. isl (py_int_of_str part)) (split_on CHR '','' s) \<longrightarrow>
      isl (ico_main w input_path output_path (Some s)))"
proof (intro conjI)
  show "image_open w input_path = Inl e1 \<longrightarrow>
      png_to_ico w input_path output_path sizes = (w, [Ico_error e1])"
    by (simp add: png_to_ico_def ico_try_def Let_def)
next
  show "snd (ico_try w input_path out szs) = Inl e2 \<longrightarrow>
      snd (png_to_ico w input_path (Some out) (Some szs)) = [Ico_error e2]
      \<and> (fst (png_to_ico w input_path (Some out) (Some szs)) = w
          \<or> e2 = SaveError
            \<and> fst (png_to_ico w input_path (Some out) (Some szs)) = failed_write w out)"
    by (auto simp: png_to_ico_def ico_try_def Let_def write_file_def
        split: sum.splits list.splits prod.splits if_splits)
next
  show "image_open w input_path = Inr img \<and> szs3 \<noteq> []
        \<and> list_all (\<lambda>sz. 1 \<le> fst sz \<and> 1 \<le> snd sz) szs3 \<and> \<not> save_ok w out3 \<longrightarrow>
      png_to_ico w input_path (Some out3) (Some szs3)
        = (failed_write w out3, [Ico_error SaveError])"
  proof
    assume h: "image_open w input_path = Inr img \<and> szs3 \<noteq> []
        \<and> list_all (\<lambda>sz. 1 \<le> fst sz \<and> 1 \<le> snd sz) szs3 \<and> \<not> save_ok w out3"
    define img1 where "img1 = (if img_mode img \<noteq> ''RGBA'' then image_convert_rgba img else img)"
    from h resize_each_positive [of szs3 img1] obtain imgs where
      imgs: "resize_each img1 szs3 = Inr imgs" "length imgs = length szs3"
      by blast
    with h obtain first rest where "imgs = first # rest"
      by (cases imgs) auto
    with h imgs show "png_to_ico w input_path (Some out3) (Some szs3)
        = (failed_write w out3, [Ico_error SaveError])"
      by (simp add: png_to_ico_def ico_try_def Let_def write_file_def img1_def)
  qed
next
  show "\<forall>q. q \<noteq> out3 \<longrightarrow> map_of (files (failed_write w out3)) q = map_of (files w) q"
    by (simp add: failed_write_def)
next
  show "\<not> path_exists w out3 \<longrightarrow> failed_write w out3 = w"
    by (simp add: failed_write_def)
next
  show "save_truncates w out3 \<and> path_exists w out3 \<longrightarrow>
        map_of (files (failed_write w out3)) out3 = Some OtherFile"
    by (simp add: failed_write_def)
next
  show "cli_sizes sizes_arg = Inl e4 \<longrightarrow> ico_main w input_path output_path sizes_arg = Inl e4"
    by (simp add: ico_main_def)
next
  show "list_ex (\<lambda>part. isl (py_int_of_str part)) (split_on CHR '','' s) \<longrightarrow>
      isl (ico_main w input_path output_path (Some s))"
  proof
    assume "list_ex (\<lambda>part. isl (py_int_of_str part)) (split_on CHR '','' s)"
    then have "isl (cli_sizes (Some s))"
      by (simp add: cli_sizes_def square_sizes_fail)
    then show "isl (ico_main w input_path output_path (Some s))"
      by (cases "cli_sizes (Some s)") (simp_all add: ico_main_def)
  qed
qed

theorem ico_failure_handling_witness:
  "image_open wide_world ''missing.png'' = Inl FileNotFoundError
   \<and> png_to_ico wide_world ''missing.png'' None None = (wide_world, [Ico_error FileNotFoundError])
   \<and> snd (ico_try wide_world ''a_w300.png'' ''x.ico'' [(16, 16)]) = Inl UnidentifiedImageError
   \<and> snd (png_to_ico wide_world ''a_w300.png'' (Some ''x.ico'') (Some [(16, 16)]))
       = [Ico_error UnidentifiedImageError]
   \<and> image_open readonly_world ''a.png'' = Inr wide_image
   \<and> \<not> save_ok readonly_world ''a.ico''
   \<and> \<not> path_exists readonly_world ''a.ico''
   \<and> png_to_ico readonly_world ''a.png'' (Some ''a.ico'') (Some [(16, 16), (32, 32)])
       = (readonly_world, [Ico_error SaveError])
   \<and> \<not> save_ok readonly_world ''old.ico''
   \<and> save_truncates readonly_world ''old.ico''
   \<and> path_exists readonly_world ''old.ico''
   \<and> snd (png_to_ico readonly_world ''a.png'' (Some ''old.ico'') (Some [(16, 16), (32, 32)]))
       = [Ico_error SaveError]
   \<and> map_of (files (fst (png_to_ico readonly_world ''a.png'' (Some ''old.ico'')
                            (Some [(16, 16), (32, 32)])))) ''old.ico''
       = Some OtherFile
   \<and> map_of (files (fst (png_to_ico readonly_world ''a.png'' (Some ''old.ico'')
                            (Some [(16, 16), (32, 32)])))) ''a.png''
       = Some (ImageFile wide_image)
   \<and> cli_sizes (Some ''16,abc'') = Inl (IntParseError ''abc'')
   \<and> ico_main wide_world ''a.png'' None (Some ''16,abc'') = Inl (IntParseError ''abc'')
   \<and> list_ex (\<lambda>part. isl (py_int_of_str part)) (split_on CHR '','' ''16,abc'')
   \<and> isl (ico_main wide_world ''a.png'' None (Some ''16,abc''))"
proof -
  have h1: "image_open wide_world ''missing.png'' = Inl FileNotFoundError" by code_simp
  have "image_open wide_world ''a_w300.png'' = Inl UnidentifiedImageError" by code_simp
  then have h2: "snd (ico_try wide_world ''a_w300.png'' ''x.ico'' [(16, 16)])
      = Inl UnidentifiedImageError"
    by (simp add: ico_try_def)
  have h3: "image_open readonly_world ''a.png'' = Inr wide_image" by code_simp
  have h3b: "\<not> save_ok readonly_world ''a.ico''" by code_simp
  have h3c: "[(16, 16), (32, 32)] \<noteq> ([] :: (int \<times> int) list)
      \<and> list_all (\<lambda>sz. 1 \<le> fst sz \<and> 1 \<le> snd sz) [(16, 16), (32, 32) :: int \<times> int]"
    by simp
  have h3d: "\<not> path_exists readonly_world ''a.ico''" by code_simp
  have h4: "cli_sizes (Some ''16,abc'') = Inl (IntParseError ''abc'')" by (rule cli_sizes_abc)
  have h5: "list_ex (\<lambda>part. isl (py_int_of_str part)) (split_on CHR '','' ''16,abc'')"
    by code_simp
  have h6: "\<not> save_ok readonly_world ''old.ico''" by code_simp
  have h6b: "save_truncates readonly_world ''old.ico''" by code_simp
  have h6c: "path_exists readonly_world ''old.ico''" by code_simp
  have h6d: "''a.png'' \<noteq> ''old.ico''" by simp
  have h6e: "map_of (files readonly_world) ''a.png'' = Some (ImageFile wide_image)" by code_simp
  from ico_failure_handling [of wide_world "''missing.png''" FileNotFoundError None None] h1
  have c1: "png_to_ico wide_world ''missing.png'' None None
      = (wide_world, [Ico_error FileNotFoundError])"
    by blast
  from ico_failure_handling [of wide_world "''a_w300.png''" _ _ _ "''x.ico''" "[(16, 16)]"
      UnidentifiedImageError] h2
  have c2: "snd (png_to_ico wide_world ''a_w300.png'' (Some ''x.ico'') (Some [(16, 16)]))
       = [Ico_error UnidentifiedImageError]"
    by blast
  note fresh = ico_failure_handling [of readonly_world "''a.png''" _ _ _ _ _ _ wide_image
      "[(16, 16), (32, 32)]" "''a.ico''"]
  from fresh h3 h3b h3c
  have "png_to_ico readonly_world ''a.png'' (Some ''a.ico'') (Some [(16, 16), (32, 32)])
       = (failed_write readonly_world ''a.ico'', [Ico_error SaveError])"
    by blast
  moreover from fresh h3d have "failed_write readonly_world ''a.ico'' = readonly_world"
    by blast
  ultimately
  have c3: "png_to_ico readonly_world ''a.png'' (Some ''a.ico'') (Some [(16, 16), (32, 32)])
       = (readonly_world, [Ico_error SaveError])"
    by simp
  note old = ico_failure_handling [of readonly_world "''a.png''" _ _ _ _ _ _ wide_image
      "[(16, 16), (32, 32)]" "''old.ico''"]
  from old h3 h6 h3c
  have run: "png_to_ico readonly_world ''a.png'' (Some ''old.ico'') (Some [(16, 16), (32, 32)])
       = (failed_write readonly_world ''old.ico'', [Ico_error SaveError])"
    by blast
  from old h6b h6c
  have damaged: "map_of (files (failed_write readonly_world ''old.ico'')) ''old.ico''
      = Some OtherFile"
    by blast
  note others = old [THEN conjunct2, THEN conjunct2, THEN conjunct2, THEN conjunct1, rule_format]
  have kept: "map_of (files (failed_write readonly_world ''old.ico'')) ''a.png''
      = map_of (files readonly_world) ''a.png''"
    using h6d by (rule others)
  have c6: "snd (png_to_ico readonly_world ''a.png'' (Some ''old.ico'') (Some [(16, 16), (32, 32)]))
       = [Ico_error SaveError]"
    by (simp only: run snd_conv)
  have c7: "map_of (files (fst (png_to_ico readonly_world ''a.png'' (Some ''old.ico'')
                            (Some [(16, 16), (32, 32)])))) ''old.ico'' = Some OtherFile"
    by (simp only: run fst_conv damaged)
  have c8: "map_of (files (fst (png_to_ico readonly_world ''a.png'' (Some ''old.ico'')
                            (Some [(16, 16), (32, 32)])))) ''a.png'' = Some (ImageFile wide_image)"
    by (simp only: run fst_conv kept h6e)
  from ico_failure_handling [of wide_world "''a.png''" _ None _ _ _ _ _ _ _ "Some ''16,abc''"
      "IntParseError ''abc''" "''16,abc''"] h4 h5
  have c4: "ico_main wide_world ''a.png'' None (Some ''16,abc'') = Inl (IntParseError ''abc'')"
    and c5: "isl (ico_main wide_world ''a.png'' None (Some ''16,abc''))"
    by blast+
  show ?thesis
    by (intro conjI) (fact h1 c1 h2 c2 h3 h3b h3d c3 h6 h6b h6c c6 c7 c8 h4 c4 h5 c5)+
qed

subsection \<open>The resolved target size (C4)\<close>

text \<open>
  C4, as stated, fails. A width of zero was given together with a height, yet the target
  is the original width and the given height, with and without \<^verbatim>\<open>keep_aspect\<close>, because
  lines 62 and 67--68 test truth values. And the ratio and the products are computed in
  double precision: on a 49x49 image with width 1 and height 1 the product
  \<^verbatim>\<open>49 * (1/49)\<close> is just below one and \<^verbatim>\<open>int\<close> gives 0, where exact arithmetic gives 1.
\<close>

theorem target_size_differs_from_spec:
  "target_size True (Some 0) (Some 5) ''scale'' 10 10 = Inr (10, 5)
   \<and> spec_target_size True (Some 0) (Some 5) ''scale'' 10 10 = (0, 0)
   \<and> target_size False (Some 0) (Some 5) ''scale'' 10 10 = Inr (10, 5)
   \<and> spec_target_size False (Some 0) (Some 5) ''scale'' 10 10 = (0, 5)
   \<and> target_size True (Some 1) (Some 1) ''scale'' 49 49 = Inr (0, 0)
   \<and> spec_target_size True (Some 1) (Some 1) ''scale'' 49 49 = (1, 1)"
  by code_simp

text \<open>
  C4, amended: when \<^verbatim>\<open>keep_aspect\<close> is true, the mode is not \<^verbatim>\<open>stretch\<close>, and both width and
  height are given and not zero, the target is \<^verbatim>\<open>(int(ow * r), int(oh * r))\<close> with
  \<^verbatim>\<open>r = min(width / ow, height / oh)\<close>, each quotient and product rounded to a double and
  \<^verbatim>\<open>int\<close> truncating. For given and original dimensions from 1 to \<open>2 ^ 31 - 1\<close> this
  target exists and each coordinate is within one of \<open>(\<lfloor>ow * r\<rfloor>, \<lfloor>oh * r\<rfloor>)\<close> in exact
  arithmetic; whenever the two quotients, the two original dimensions and the two
  products are representable and the products are not negative, it is equal to it. In
  every other case the target width (height) is the given value if it is present and
  not zero, otherwise the original width (height).
\<close>

theorem target_size_resolution:
  "(keep_aspect \<and> a \<noteq> 0 \<and> b \<noteq> 0 \<and> mode \<noteq> ''stretch'' \<longrightarrow>
      target_size keep_aspect (Some a) (Some b) mode ow oh =
        (case py_truediv a ow of
           Inl e \<Rightarrow> Inl e
         | Inr ra \<Rightarrow>
             (case py_truediv b oh of
                Inl e \<Rightarrow> Inl e
              | Inr rb \<Rightarrow>
                  (case int_of_product ow (min ra rb) of
                     Inl e \<Rightarrow> Inl e
                   | Inr tw \<Rightarrow>
                       (case int_of_product oh (min ra rb) of
                          Inl e \<Rightarrow> Inl e
                        | Inr th \<Rightarrow> Inr (tw, th))))))
   \<and> (keep_aspect \<and> mode \<noteq> ''stretch''
        \<and> 0 < a \<and> a < 2 ^ 31 \<and> 0 < b \<and> b < 2 ^ 31
        \<and> 0 < ow \<and> ow < 2 ^ 31 \<and> 0 < oh \<and> oh < 2 ^ 31
        \<and> r = min (rat_of_int a / rat_of_int ow) (rat_of_int b / rat_of_int oh) \<longrightarrow>
      (\<exists>tw th. target_size keep_aspect (Some a) (Some b) mode ow oh = Inr (tw, th)
          \<and> \<bar>tw - \<lfloor>rat_of_int ow * r\<rfloor>\<bar> \<le> 1 \<and> \<bar>th - \<lfloor>rat_of_int oh * r\<rfloor>\<bar> \<le> 1))
   \<and> (keep_aspect \<and> a \<noteq> 0 \<and> b \<noteq> 0 \<and> mode \<noteq> ''stretch'' \<and> ow \<noteq> 0 \<and> oh \<noteq> 0
        \<and> r = min (rat_of_int a / rat_of_int ow) (rat_of_int b / rat_of_int oh)
        \<and> representable (rat_of_int a / rat_of_int ow)
        \<and> representable (rat_of_int b / rat_of_int oh)
        \<and> representable (rat_of_int ow) \<and> representable (rat_of_int oh)
        \<and> representable (rat_of_int ow * r) \<and> representable (rat_of_int oh * r)
        \<and> 0 \<le> rat_of_int ow * r \<and> 0 \<le> rat_of_int oh * r \<longrightarrow>
      target_size keep_aspect (Some a) (Some b) mode ow oh
        = Inr (\<lfloor>rat_of_int ow * r\<rfloor>, \<lfloor>rat_of_int oh * r\<rfloor>))
   \<and> (\<not> (keep_aspect \<and> truthy width \<and> truthy height \<and> mode \<noteq> ''stretch'') \<longrightarrow>
      target_size keep_aspect width height mode ow oh =
        Inr (case width of None \<Rightarrow> ow | Some c \<Rightarrow> if c = 0 then ow else c,
             case height of None \<Rightarrow> oh | Some c \<Rightarrow> if c = 0 then oh else c))"
proof (intro conjI impI)
  assume "keep_aspect \<and> a \<noteq> 0 \<and> b \<noteq> 0 \<and> mode \<noteq> ''stretch''"
  then show "target_size keep_aspect (Some a) (Some b) mode ow oh =
        (case py_truediv a ow of
           Inl e \<Rightarrow> Inl e
         | Inr ra \<Rightarrow>
             (case py_truediv b oh of
                Inl e \<Rightarrow> Inl e
              | Inr rb \<Rightarrow>
                  (case int_of_product ow (min ra rb) of
                     Inl e \<Rightarrow> Inl e
                   | Inr tw \<Rightarrow>
                       (case int_of_product oh (min ra rb) of
                          Inl e \<Rightarrow> Inl e
                        | Inr th \<Rightarrow> Inr (tw, th)))))"
    by (simp add: target_size_def scaled_size_def fit_ratio_def split: sum.splits)
next
  assume h: "keep_aspect \<and> mode \<noteq> ''stretch''
        \<and> 0 < a \<and> a < 2 ^ 31 \<and> 0 < b \<and> b < 2 ^ 31
        \<and> 0 < ow \<and> ow < 2 ^ 31 \<and> 0 < oh \<and> oh < 2 ^ 31
        \<and> r = min (rat_of_int a / rat_of_int ow) (rat_of_int b / rat_of_int oh)"
  then have "\<exists>tw th. scaled_size a b ow oh = Inr (tw, th)
      \<and> \<bar>tw - \<lfloor>rat_of_int ow * r\<rfloor>\<bar> \<le> 1 \<and> \<bar>th - \<lfloor>rat_of_int oh * r\<rfloor>\<bar> \<le> 1"
    using scaled_size_near [of a b ow oh r] by blast
  moreover from h have "target_size keep_aspect (Some a) (Some b) mode ow oh = scaled_size a b ow oh"
    by (simp add: target_size_def)
  ultimately show "\<exists>tw th. target_size keep_aspect (Some a) (Some b) mode ow oh = Inr (tw, th)
          \<and> \<bar>tw - \<lfloor>rat_of_int ow * r\<rfloor>\<bar> \<le> 1 \<and> \<bar>th - \<lfloor>rat_of_int oh * r\<rfloor>\<bar> \<le> 1"
    by simp
next
  assume h: "keep_aspect \<and> a \<noteq> 0 \<and> b \<noteq> 0 \<and> mode \<noteq> ''stretch'' \<and> ow \<noteq> 0 \<and> oh \<noteq> 0
        \<and> r = min (rat_of_int a / rat_of_int ow) (rat_of_int b / rat_of_int oh)
        \<and> representable (rat_of_int a / rat_of_int ow)
        \<and> representable (rat_of_int b / rat_of_int oh)
        \<and> representable (rat_of_int ow) \<and> representable (rat_of_int oh)
        \<and> representable (rat_of_int ow * r) \<and> representable (rat_of_int oh * r)
        \<and> 0 \<le> rat_of_int ow * r \<and> 0 \<le> rat_of_int oh * r"
  then have "scaled_size a b ow oh = Inr (\<lfloor>rat_of_int ow * r\<rfloor>, \<lfloor>rat_of_int oh * r\<rfloor>)"
    using scaled_size_exact [of ow oh a b r] by blast
  with h show "target_size keep_aspect (Some a) (Some b) mode ow oh
        = Inr (\<lfloor>rat_of_int ow * r\<rfloor>, \<lfloor>rat_of_int oh * r\<rfloor>)"
    by (simp add: target_size_def)
next
  assume "\<not> (keep_aspect \<and> truthy width \<and> truthy height \<and> mode \<noteq> ''stretch'')"
  then show "target_size keep_aspect width height mode ow oh =
        Inr (case width of None \<Rightarrow> ow | Some c \<Rightarrow> if c = 0 then ow else c,
             case height of None \<Rightarrow> oh | Some c \<Rightarrow> if c = 0 then oh else c)"
    by (cases width; cases height) (auto simp: target_size_def)
qed

theorem target_size_resolution_witness:
  "target_size True (Some 500) (Some 500) ''pad'' 1000 400 = Inr (500, 200)
   \<and> spec_target_size True (Some 500) (Some 500) ''pad'' 1000 400 = (500, 200)
   \<and> (\<exists>tw th. target_size True (Some 1) (Some 1) ''scale'' 49 49 = Inr (tw, th)
         \<and> \<bar>tw - 1\<bar> \<le> 1 \<and> \<bar>th - 1\<bar> \<le> 1)
   \<and> spec_target_size True (Some 1) (Some 1) ''scale'' 49 49 = (1, 1)
   \<and> \<not> (True \<and> truthy (Some 300) \<and> truthy None \<and> ''scale'' \<noteq> ''stretch'')
   \<and> target_size True (Some 300) None ''scale'' 600 400 = Inr (300, 400)
   \<and> \<not> (True \<and> truthy (Some 0) \<and> truthy (Some 5) \<and> ''scale'' \<noteq> ''stretch'')
   \<and> target_size True (Some 0) (Some 5) ''scale'' 10 10 = Inr (10, 5)"
proof -
  note inst1 = target_size_resolution [of True 500 500 "''pad''" 1000 400 "1 / 2" "Some 500" "Some 500"]
  have r: "(1 / 2 :: rat) = min (rat_of_int 500 / rat_of_int 1000) (rat_of_int 500 / rat_of_int 400)"
    by simp
  have pos: "0 \<le> rat_of_int 1000 * (1 / 2) \<and> 0 \<le> rat_of_int 400 * (1 / 2)" by simp
  have fl: "\<lfloor>rat_of_int 1000 * (1 / 2)\<rfloor> = 500 \<and> \<lfloor>rat_of_int 400 * (1 / 2)\<rfloor> = 200" by simp
  have mode: "''pad'' \<noteq> ''stretch''" by simp
  from inst1 r pos representable_examples mode
  have "target_size True (Some 500) (Some 500) ''pad'' 1000 400
      = Inr (\<lfloor>rat_of_int 1000 * (1 / 2)\<rfloor>, \<lfloor>rat_of_int 400 * (1 / 2)\<rfloor>)"
    by (elim conjE) simp
  then have a: "target_size True (Some 500) (Some 500) ''pad'' 1000 400 = Inr (500, 200)"
    by (simp only: fl)
  have b: "spec_target_size True (Some 500) (Some 500) ''pad'' 1000 400 = (500, 200)"
    by code_simp
  have r49: "(1 / 49 :: rat) = min (rat_of_int 1 / rat_of_int 49) (rat_of_int 1 / rat_of_int 49)"
    by simp
  have fl49: "\<lfloor>rat_of_int 49 * (1 / 49)\<rfloor> = 1" by simp
  have rng: "(0::int) < 1 \<and> (1::int) < 2 ^ 31 \<and> (0::int) < 49 \<and> (49::int) < 2 ^ 31" by simp
  have "''scale'' \<noteq> ''stretch''" by simp
  with target_size_resolution [of True 1 1 "''scale''" 49 49 "1 / 49" "Some 1" "Some 1"] r49 rng
  have "\<exists>tw th. target_size True (Some 1) (Some 1) ''scale'' 49 49 = Inr (tw, th)
         \<and> \<bar>tw - \<lfloor>rat_of_int 49 * (1 / 49)\<rfloor>\<bar> \<le> 1 \<and> \<bar>th - \<lfloor>rat_of_int 49 * (1 / 49)\<rfloor>\<bar> \<le> 1"
    by (elim conjE) simp
  then have n: "\<exists>tw th. target_size True (Some 1) (Some 1) ''scale'' 49 49 = Inr (tw, th)
         \<and> \<bar>tw - 1\<bar> \<le> 1 \<and> \<bar>th - 1\<bar> \<le> 1"
    by (simp only: fl49)
  have s49: "spec_target_size True (Some 1) (Some 1) ''scale'' 49 49 = (1, 1)"
    by code_simp
  have c: "\<not> (True \<and> truthy (Some 300) \<and> truthy None \<and> ''scale'' \<noteq> ''stretch'')" by simp
  from target_size_resolution [of True 0 0 "''scale''" 600 400 0 "Some 300" None] c
  have d: "target_size True (Some 300) None ''scale'' 600 400 = Inr (300, 400)" by simp
  have e: "\<not> (True \<and> truthy (Some 0) \<and> truthy (Some 5) \<and> ''scale'' \<noteq> ''stretch'')" by simp
  from target_size_resolution [of True 0 0 "''scale''" 10 10 0 "Some 0" "Some 5"] e
  have f: "target_size True (Some 0) (Some 5) ''scale'' 10 10 = Inr (10, 5)" by simp
  from a b n s49 c d e f show ?thesis by blast
qed

subsection \<open>The output file name (C5)\<close>

text \<open>
  C5, as stated, fails. A width of zero was supplied, yet the tag is \<^verbatim>\<open>_h5\<close> and not
  \<^verbatim>\<open>_0x5\<close>: lines 35--40 test the truth value of the dimensions. Likewise an empty suffix
  was supplied, yet nothing is appended (line 47).
\<close>

theorem zero_width_tag_differs:
  "make_size_tag (Some 0) (Some 5) ''scale'' None = ''_h5''
   \<and> spec_size_tag (Some 0) (Some 5) ''scale'' None = ''_0x5''
   \<and> derive_output_path wide_world ''a.png'' None (Some 0) (Some 5) ''scale'' = Some ''a_h5.png''
   \<and> make_size_tag (Some 300) None ''scale'' (Some []) = ''_w300''
   \<and> spec_size_tag (Some 300) None ''scale'' (Some []) = ''_w300_''"
  by code_simp

text \<open>
  C5, amended: the output path is \<^verbatim>\<open>os.path.join(directory, name + tag + ext)\<close>, where the
  tag is \<^verbatim>\<open>_{width}x{height}\<close> if both dimensions were supplied and are not zero,
  \<^verbatim>\<open>_w{width}\<close> if only the width is supplied and not zero, \<^verbatim>\<open>_h{height}\<close> if only the height
  is, else empty; \<^verbatim>\<open>_{mode}\<close> is appended when the mode is not \<^verbatim>\<open>scale\<close>, and
  \<^verbatim>\<open>_{suffix}\<close> when a non-empty suffix was supplied. If that path exists, the result is
  the path with \<^verbatim>\<open>_{n}\<close> before the extension for the least \<open>n \<ge> 1\<close> whose path does not
  exist. A path is always found, and it does not exist.
\<close>

theorem output_path_derivation:
  assumes "os_path_split input_path = (dirname, basename)"
    and "os_path_splitext basename = (name, ext)"
    and "tag = make_size_tag width height mode output_suffix"
  shows "tag = (case (width, height) of
                  (Some a, Some b) \<Rightarrow>
                     if a \<noteq> 0 \<and> b \<noteq> 0 then ''_'' @ str_int a @ ''x'' @ str_int b
                     else if a \<noteq> 0 then ''_w'' @ str_int a
                     else if b \<noteq> 0 then ''_h'' @ str_int b
                     else []
                | (Some a, None) \<Rightarrow> if a \<noteq> 0 then ''_w'' @ str_int a else []
                | (None, Some b) \<Rightarrow> if b \<noteq> 0 then ''_h'' @ str_int b else []
                | (None, None) \<Rightarrow> [])
               @ (if mode = ''scale'' then [] else ''_'' @ mode)
               @ (case output_suffix of None \<Rightarrow> [] | Some s \<Rightarrow> if s = [] then [] else ''_'' @ s)
       \<and> (\<exists>p. derive_output_path w input_path output_suffix width height mode = Some p
              \<and> \<not> path_exists w p
              \<and> (if path_exists w (os_path_join dirname (name @ tag @ ext))
                  then \<exists>n. 1 \<le> n
                         \<and> p = os_path_join dirname (name @ tag @ ''_'' @ str_int n @ ext)
                         \<and> (\<forall>k. 1 \<le> k \<and> k < n \<longrightarrow>
                               path_exists w
                                 (os_path_join dirname (name @ tag @ ''_'' @ str_int k @ ext)))
                  else p = os_path_join dirname (name @ tag @ ext)))"
proof
  show "tag = (case (width, height) of
                  (Some a, Some b) \<Rightarrow>
                     if a \<noteq> 0 \<and> b \<noteq> 0 then ''_'' @ str_int a @ ''x'' @ str_int b
                     else if a \<noteq> 0 then ''_w'' @ str_int a
                     else if b \<noteq> 0 then ''_h'' @ str_int b
                     else []
                | (Some a, None) \<Rightarrow> if a \<noteq> 0 then ''_w'' @ str_int a else []
                | (None, Some b) \<Rightarrow> if b \<noteq> 0 then ''_h'' @ str_int b else []
                | (None, None) \<Rightarrow> [])
               @ (if mode = ''scale'' then [] else ''_'' @ mode)
               @ (case output_suffix of None \<Rightarrow> [] | Some s \<Rightarrow> if s = [] then [] else ''_'' @ s)"
    unfolding assms(3) make_size_tag_def
    by (cases width; cases height; cases output_suffix) simp_all
next
  have "(0::int) \<le> 1" by simp
  from avoid_overwrite_characterised [OF this, of w dirname name tag ext
      "os_path_join dirname (name @ tag @ ext)"]
  show "\<exists>p. derive_output_path w input_path output_suffix width height mode = Some p
              \<and> \<not> path_exists w p
              \<and> (if path_exists w (os_path_join dirname (name @ tag @ ext))
                  then \<exists>n. 1 \<le> n
                         \<and> p = os_path_join dirname (name @ tag @ ''_'' @ str_int n @ ext)
                         \<and> (\<forall>k. 1 \<le> k \<and> k < n \<longrightarrow>
                               path_exists w
                                 (os_path_join dirname (name @ tag @ ''_'' @ str_int k @ ext)))
                  else p = os_path_join dirname (name @ tag @ ext))"
    unfolding derive_output_path_def Let_def assms(1) assms(2) assms(3) [symmetric] prod.case
      numbered_path_def
    by blast
qed

text \<open>
  The instance of the specification: with \<^verbatim>\<open>a.png\<close> and \<^verbatim>\<open>a_w300.png\<close> present, the input
  \<^verbatim>\<open>a.png\<close> with width 300 gives \<^verbatim>\<open>a_w300_1.png\<close>.
\<close>

theorem output_path_derivation_witness:
  "os_path_split ''a.png'' = ([], ''a.png'')
   \<and> os_path_splitext ''a.png'' = (''a'', ''.png'')
   \<and> ''_w300'' = make_size_tag (Some 300) None ''scale'' None
   \<and> path_exists wide_world ''a.png''
   \<and> path_exists wide_world ''a_w300.png''
   \<and> derive_output_path wide_world ''a.png'' None (Some 300) None ''scale'' = Some ''a_w300_1.png''"
proof -
  have h1: "os_path_split ''a.png'' = ([], ''a.png'')" by code_simp
  have h2: "os_path_splitext ''a.png'' = (''a'', ''.png'')" by code_simp
  have h3: "''_w300'' = make_size_tag (Some 300) None ''scale'' None" by code_simp
  have ex1: "path_exists wide_world ''a.png''" by code_simp
  have ex2: "path_exists wide_world ''a_w300.png''" by code_simp
  have taken: "path_exists wide_world (os_path_join [] (''a'' @ ''_w300'' @ ''.png''))" by code_simp
  have free1: "\<not> path_exists wide_world (os_path_join [] (''a'' @ ''_w300'' @ ''_'' @ str_int 1 @ ''.png''))"
    by code_simp
  have name1: "os_path_join [] (''a'' @ ''_w300'' @ ''_'' @ str_int 1 @ ''.png'') = ''a_w300_1.png''"
    by code_simp
  from output_path_derivation [OF h1 h2 h3, of wide_world]
  have "\<exists>p. derive_output_path wide_world ''a.png'' None (Some 300) None ''scale'' = Some p
          \<and> \<not> path_exists wide_world p
          \<and> (if path_exists wide_world (os_path_join [] (''a'' @ ''_w300'' @ ''.png''))
              then \<exists>n. 1 \<le> n
                     \<and> p = os_path_join [] (''a'' @ ''_w300'' @ ''_'' @ str_int n @ ''.png'')
                     \<and> (\<forall>k. 1 \<le> k \<and> k < n \<longrightarrow>
                           path_exists wide_world
                             (os_path_join [] (''a'' @ ''_w300'' @ ''_'' @ str_int k @ ''.png'')))
              else p = os_path_join [] (''a'' @ ''_w300'' @ ''.png''))"
    by (rule conjunct2)
  then obtain p where
    p: "derive_output_path wide_world ''a.png'' None (Some 300) None ''scale'' = Some p"
    and branch: "if path_exists wide_world (os_path_join [] (''a'' @ ''_w300'' @ ''.png''))
              then \<exists>n. 1 \<le> n
                     \<and> p = os_path_join [] (''a'' @ ''_w300'' @ ''_'' @ str_int n @ ''.png'')
                     \<and> (\<forall>k. 1 \<le> k \<and> k < n \<longrightarrow>
                           path_exists wide_world
                             (os_path_join [] (''a'' @ ''_w300'' @ ''_'' @ str_int k @ ''.png'')))
              else p = os_path_join [] (''a'' @ ''_w300'' @ ''.png'')"
    by blast
  from branch have "\<exists>n. 1 \<le> n
                     \<and> p = os_path_join [] (''a'' @ ''_w300'' @ ''_'' @ str_int n @ ''.png'')
                     \<and> (\<forall>k. 1 \<le> k \<and> k < n \<longrightarrow>
                           path_exists wide_world
                             (os_path_join [] (''a'' @ ''_w300'' @ ''_'' @ str_int k @ ''.png'')))"
    by (simp only: taken if_True)
  then obtain n where n: "1 \<le> n" "p = os_path_join [] (''a'' @ ''_w300'' @ ''_'' @ str_int n @ ''.png'')"
    and before: "\<forall>k. 1 \<le> k \<and> k < n \<longrightarrow>
           path_exists wide_world (os_path_join [] (''a'' @ ''_w300'' @ ''_'' @ str_int k @ ''.png''))"
    by blast
  have "n = 1"
  proof (rule ccontr)
    assume "n \<noteq> 1"
    with n(1) have "1 \<le> (1::int) \<and> 1 < n" by simp
    with before free1 show False by blast
  qed
  with p n(2) name1 have "derive_output_path wide_world ''a.png'' None (Some 300) None ''scale''
      = Some ''a_w300_1.png''" by simp
  with h1 h2 h3 ex1 ex2 show ?thesis by blast
qed

subsection \<open>Nothing is overwritten (C6)\<close>

text \<open>
  C6: the resizer always returns; when it reports a generated file, the path written did
  not exist before, it is not the input path, the new file is the only change, and every
  file that existed keeps its content. When it reports no generated file, nothing was
  written.
\<close>

theorem resize_never_overwrites:
  "(\<exists>r. resize_png w input_path output_suffix width height mode background keep_aspect quality
          = Some r)
   \<and> (\<forall>w' printed p.
         resize_png w input_path output_suffix width height mode background keep_aspect quality
           = Some (w', printed) \<and> New_generated p \<in> set printed \<longrightarrow>
         \<not> path_exists w p \<and> p \<noteq> input_path
         \<and> (\<exists>img. files w' = (p, ImageFile img) # files w)
         \<and> (\<forall>q. path_exists w q \<longrightarrow> map_of (files w') q = map_of (files w) q))
   \<and> (\<forall>w' printed.
         resize_png w input_path output_suffix width height mode background keep_aspect quality
           = Some (w', printed) \<and> \<not> list_ex (\<lambda>l. \<exists>p. l = New_generated p) printed \<longrightarrow>
         w' = w)"
proof (intro conjI)
  show "\<exists>r. resize_png w input_path output_suffix width height mode background keep_aspect quality
          = Some r"
    by (rule resize_png_returns)
next
  show "\<forall>w' printed p.
         resize_png w input_path output_suffix width height mode background keep_aspect quality
           = Some (w', printed) \<and> New_generated p \<in> set printed \<longrightarrow>
         \<not> path_exists w p \<and> p \<noteq> input_path
         \<and> (\<exists>img. files w' = (p, ImageFile img) # files w)
         \<and> (\<forall>q. path_exists w q \<longrightarrow> map_of (files w') q = map_of (files w) q)"
  proof (intro allI impI)
    fix w' printed p
    assume a: "resize_png w input_path output_suffix width height mode background keep_aspect quality
             = Some (w', printed) \<and> New_generated p \<in> set printed"
    from resize_png_cases [OF conjunct1 [OF a]] conjunct2 [OF a]
    obtain img resized_img where
      opened: "image_open w input_path = Inr img"
      and path: "derive_output_path w input_path output_suffix width height mode = Some p"
      and w': "w' = w\<lparr>files := (p, ImageFile resized_img) # files w\<rparr>"
      by auto
    from path derive_output_path_total [of w input_path output_suffix width height mode]
    have free: "\<not> path_exists w p" by auto
    from opened have "path_exists w input_path"
      by (auto simp: image_open_def path_exists_def split: option.splits)
    with free have "p \<noteq> input_path" by auto
    moreover have "\<exists>im. files w' = (p, ImageFile im) # files w"
      using w' by simp
    moreover have "\<forall>q. path_exists w q \<longrightarrow> map_of (files w') q = map_of (files w) q"
      using free w' by (auto simp: path_exists_def)
    ultimately show "\<not> path_exists w p \<and> p \<noteq> input_path
           \<and> (\<exists>img. files w' = (p, ImageFile img) # files w)
           \<and> (\<forall>q. path_exists w q \<longrightarrow> map_of (files w') q = map_of (files w) q)"
      using free by blast
  qed
next
  show "\<forall>w' printed.
         resize_png w input_path output_suffix width height mode background keep_aspect quality
           = Some (w', printed) \<and> \<not> list_ex (\<lambda>l. \<exists>p. l = New_generated p) printed \<longrightarrow>
         w' = w"
  proof (intro allI impI)
    fix w' printed
    assume a: "resize_png w input_path output_suffix width height mode background keep_aspect quality
             = Some (w', printed) \<and> \<not> list_ex (\<lambda>l. \<exists>p. l = New_generated p) printed"
    from resize_png_cases [OF conjunct1 [OF a]] conjunct2 [OF a]
    show "w' = w" by auto
  qed
qed

theorem resize_never_overwrites_witness:
  "\<exists>w' printed.
     resize_png wide_world ''a.png'' None (Some 300) None ''scale'' [255, 255, 255, 0] True 95
       = Some (w', printed)
     \<and> New_generated ''a_w300_1.png'' \<in> set printed
     \<and> \<not> path_exists wide_world ''a_w300_1.png''
     \<and> path_exists wide_world ''a.png''
     \<and> map_of (files w') ''a.png'' = map_of (files wide_world) ''a.png''
     \<and> path_exists wide_world ''a_w300.png''
     \<and> map_of (files w') ''a_w300.png'' = map_of (files wide_world) ''a_w300.png''"
proof -
  note inst = resize_never_overwrites
    [of wide_world "''a.png''" None "Some 300" None "''scale''" "[255, 255, 255, 0]" True 95]
  from inst obtain r where
    "resize_png wide_world ''a.png'' None (Some 300) None ''scale'' [255, 255, 255, 0] True 95 = Some r"
    by blast
  then obtain w' printed where
    run: "resize_png wide_world ''a.png'' None (Some 300) None ''scale'' [255, 255, 255, 0] True 95
       = Some (w', printed)"
    by (cases r) simp
  with wide_run_300 have gen: "New_generated ''a_w300_1.png'' \<in> set printed"
    by (simp add: observe_def)
  have ex1: "path_exists wide_world ''a.png''" by code_simp
  have ex2: "path_exists wide_world ''a_w300.png''" by code_simp
  from inst have "\<forall>w' printed p.
         resize_png wide_world ''a.png'' None (Some 300) None ''scale'' [255, 255, 255, 0] True 95
           = Some (w', printed) \<and> New_generated p \<in> set printed \<longrightarrow>
         \<not> path_exists wide_world p \<and> p \<noteq> ''a.png''
         \<and> (\<exists>img. files w' = (p, ImageFile img) # files wide_world)
         \<and> (\<forall>q. path_exists wide_world q \<longrightarrow> map_of (files w') q = map_of (files wide_world) q)"
    by blast
  with run gen have
    "\<not> path_exists wide_world ''a_w300_1.png''
     \<and> (\<forall>q. path_exists wide_world q \<longrightarrow> map_of (files w') q = map_of (files wide_world) q)"
    by blast
  with run gen ex1 ex2 show ?thesis by blast
qed

subsection \<open>Neither width nor height (C7)\<close>

text \<open>
  C7: with both width and height omitted the resizer returns normally, prints one failure
  line and leaves the files as they were; when the input opens as an image, the failure
  reported is the validation error of line 60.
\<close>

theorem missing_both_sizes:
  "(\<exists>e. resize_png w input_path output_suffix None None mode background keep_aspect quality
          = Some (w, [Failed e]))
   \<and> (\<forall>img. image_open w input_path = Inr img \<longrightarrow>
          resize_png w input_path output_suffix None None mode background keep_aspect quality
            = Some (w, [Failed MissingSizeError]))"
proof -
  obtain p where "derive_output_path w input_path output_suffix None None mode = Some p"
    using derive_output_path_total by blast
  then show ?thesis
    by (simp add: resize_png_def resize_try_def split: sum.splits)
qed

theorem missing_both_sizes_witness:
  "image_open wide_world ''a.png'' = Inr wide_image
   \<and> resize_png wide_world ''a.png'' None None None ''scale'' [255, 255, 255, 0] True 95
       = Some (wide_world, [Failed MissingSizeError])"
proof -
  have opened: "image_open wide_world ''a.png'' = Inr wide_image"
    by code_simp
  from missing_both_sizes [of wide_world "''a.png''" None "''scale''" "[255, 255, 255, 0]" True 95]
  have "\<forall>img. image_open wide_world ''a.png'' = Inr img \<longrightarrow>
          resize_png wide_world ''a.png'' None None None ''scale'' [255, 255, 255, 0] True 95
            = Some (wide_world, [Failed MissingSizeError])"
    by (rule conjunct2)
  with opened show ?thesis by blast
qed

subsection \<open>The background colour (C8)\<close>



subsection \<open>The default size list of the icon converter (C9)\<close>

lemma cli_sizes_default:
  "cli_sizes None = Inr [(16, 16), (32, 32), (48, 48), (64, 64), (128, 128), (256, 256)]"
  by code_simp

text \<open>
  C9, as stated, fails: invoked from the command line without \<^verbatim>\<open>-s\<close>, the converter does
  not use the seven pairs up to 512x512.
\<close>

theorem cli_default_lacks_512: "cli_sizes None \<noteq> Inr default_sizes"
  by (simp add: cli_sizes_default default_sizes_def)

text \<open>
  C9, amended: the function \<^verbatim>\<open>png_to_ico\<close> called with \<^verbatim>\<open>sizes=None\<close> uses the seven square
  pairs 16, 32, 48, 64, 128, 256 and 512; the command line without a sizes option passes
  the six square pairs 16, 32, 48, 64, 128 and 256 of the parser's default, so the
  function's own default is not used there.
\<close>

theorem default_size_lists:
  "png_to_ico w input_path output_path None
     = png_to_ico w input_path output_path
         (Some [(16, 16), (32, 32), (48, 48), (64, 64), (128, 128), (256, 256), (512, 512)])
   \<and> ico_main w input_path output_path None
     = Inr (png_to_ico w input_path output_path
              (Some [(16, 16), (32, 32), (48, 48), (64, 64), (128, 128), (256, 256)]))"
  by (simp add: png_to_ico_def default_sizes_def ico_main_def cli_sizes_default)

subsection \<open>A width of zero (C10)\<close>

text \<open>
  C10: called with width 0 and no height on an image that opens, with a known mode, a
  four-component background and a successful write, \<^verbatim>\<open>resize_png\<close> does not fail: the size part
  of the tag is empty, the target is the original size, and the file written at the
  derived path has the original width and height.
\<close>

theorem zero_width_is_absent:
  assumes "image_open w input_path = Inr img"
    and "0 < img_width img" "img_width img < 2 ^ 53"
    and "0 < img_height img" "img_height img < 2 ^ 53"
    and "mode \<in> {''scale'', ''crop'', ''pad'', ''stretch''}"
    and "length background = 4"
    and "derive_output_path w input_path output_suffix (Some 0) None mode = Some p"
    and "save_ok w p"
  shows "make_size_tag (Some 0) None mode output_suffix
           = (if mode \<noteq> ''scale'' then ''_'' @ mode else [])
             @ (if truthy_str output_suffix then ''_'' @ format_str_opt output_suffix else [])
       \<and> target_size keep_aspect (Some 0) None mode (img_width img) (img_height img)
           = Inr (img_width img, img_height img)
       \<and> (\<exists>resized_img.
             resize_png w input_path output_suffix (Some 0) None mode background keep_aspect quality
               = Some (w\<lparr>files := (p, ImageFile resized_img) # files w\<rparr>,
                       [Original_kept input_path, New_generated p,
                        Original_size (img_width img) (img_height img),
                        New_size (img_width img) (img_height img)])
           \<and> img_width resized_img = img_width img
           \<and> img_height resized_img = img_height img)"
proof (intro conjI)
  show "make_size_tag (Some 0) None mode output_suffix
           = (if mode \<noteq> ''scale'' then ''_'' @ mode else [])
             @ (if truthy_str output_suffix then ''_'' @ format_str_opt output_suffix else [])"
    by (simp add: make_size_tag_def)
next
  show target: "target_size keep_aspect (Some 0) None mode (img_width img) (img_height img)
           = Inr (img_width img, img_height img)"
    by (simp add: target_size_def)
next
  from apply_mode_same_size [OF assms(2-7)] obtain resized_img where
    r: "apply_mode img mode (img_width img) (img_height img) background = Inr resized_img"
    "img_width resized_img = img_width img" "img_height resized_img = img_height img"
    by blast
  have "target_size keep_aspect (Some 0) None mode (img_width img) (img_height img)
           = Inr (img_width img, img_height img)"
    by (simp add: target_size_def)
  with assms(1,8,9) r have
    "resize_png w input_path output_suffix (Some 0) None mode background keep_aspect quality
               = Some (w\<lparr>files := (p, ImageFile resized_img) # files w\<rparr>,
                       [Original_kept input_path, New_generated p,
                        Original_size (img_width img) (img_height img),
                        New_size (img_width img) (img_height img)])"
    by (simp add: resize_png_def resize_try_def write_file_def)
  with r(2,3) show "\<exists>resized_img.
             resize_png w input_path output_suffix (Some 0) None mode background keep_aspect quality
               = Some (w\<lparr>files := (p, ImageFile resized_img) # files w\<rparr>,
                       [Original_kept input_path, New_generated p,
                        Original_size (img_width img) (img_height img),
                        New_size (img_width img) (img_height img)])
           \<and> img_width resized_img = img_width img
           \<and> img_height resized_img = img_height img"
    by blast
qed

theorem zero_width_is_absent_witness:
  "image_open wide_world ''a.png'' = Inr wide_image
   \<and> derive_output_path wide_world ''a.png'' None (Some 0) None ''scale'' = Some ''a_1.png''
   \<and> save_ok wide_world ''a_1.png''
   \<and> make_size_tag (Some 0) None ''scale'' None = []
   \<and> target_size True (Some 0) None ''scale'' 1000 400 = Inr (1000, 400)
   \<and> (\<exists>resized_img.
         resize_png wide_world ''a.png'' None (Some 0) None ''scale'' [255, 255, 255, 0] True 95
           = Some (wide_world\<lparr>files := (''a_1.png'', ImageFile resized_img) # files wide_world\<rparr>,
                   [Original_kept ''a.png'', New_generated ''a_1.png'',
                    Original_size 1000 400, New_size 1000 400])
       \<and> img_width resized_img = 1000 \<and> img_height resized_img = 400)"
proof -
  have h1: "image_open wide_world ''a.png'' = Inr wide_image" by code_simp
  have h2: "0 < img_width wide_image" "img_width wide_image < 2 ^ 53"
    "0 < img_height wide_image" "img_height wide_image < 2 ^ 53"
    by (simp_all add: wide_image_def)
  have h3: "''scale'' \<in> {''scale'', ''crop'', ''pad'', ''stretch''}" by simp
  have h4: "length [255, 255, 255, 0 :: int] = 4" by simp
  have h5: "derive_output_path wide_world ''a.png'' None (Some 0) None ''scale'' = Some ''a_1.png''"
    by code_simp
  have h6: "save_ok wide_world ''a_1.png''" by (simp add: wide_world_def)
  have sz: "img_width wide_image = 1000" "img_height wide_image = 400"
    by (simp_all add: wide_image_def)
  from zero_width_is_absent [OF h1 h2 h3 h4 h5 h6, of True 95]
  have "make_size_tag (Some 0) None ''scale'' None = []
    \<and> target_size True (Some 0) None ''scale'' 1000 400 = Inr (1000, 400)
    \<and> (\<exists>resized_img.
         resize_png wide_world ''a.png'' None (Some 0) None ''scale'' [255, 255, 255, 0] True 95
           = Some (wide_world\<lparr>files := (''a_1.png'', ImageFile resized_img) # files wide_world\<rparr>,
                   [Original_kept ''a.png'', New_generated ''a_1.png'',
                    Original_size 1000 400, New_size 1000 400])
       \<and> img_width resized_img = 1000 \<and> img_height resized_img = 400)"
    by (simp add: sz)
  with h1 h5 h6 show ?thesis by blast
qed

end
